theory Spec2Isabelle
  imports Main "HOL-Library.Word"
begin

unbundle bit_operations_syntax

section \<open>The device session of \<open>src/ckb-daemon/usb.c\<close>\<close>

text \<open>
  The session manager of the ckb daemon: \<open>usbqueue\<close>, \<open>setupusb\<close>, \<open>revertusb\<close>,
  \<open>_resetusb\<close>, \<open>usb_tryreset\<close> and \<open>closeusb\<close>. The C \<open>int\<close> and \<open>short\<close> values are
  modelled as \<open>int\<close>. The file computes with them in one place, \<open>usbqueue\<close>, which adds
  the caller's \<open>count\<close> and the loop counter to \<open>kb->queuecount\<close>: there the 32-bit
  wrap-around of the \<open>int\<close> arithmetic is written out (\<open>c_int\<close>).
\<close>

subsection \<open>Data model\<close>

type_synonym uchar = "8 word"

text \<open>A message buffer: the \<open>MSG_SIZE\<close> bytes behind one \<open>uchar*\<close> of the queue.\<close>

type_synonym msg = "uchar list"

text \<open>A \<open>const key*\<close>: the null pointer, the global table \<open>keymap_system\<close>, or another table.\<close>

datatype keymap_ptr = Keymap_null | Keymap_system | Keymap_other nat

text \<open>
  \<open>usbprofile\<close>, as far as \<open>usb.c\<close> reads and writes it. \<open>currentmode\<close> is a pointer into
  the profile's mode array, here the index of the mode (\<open>None\<close> is the null pointer);
  \<open>modecount\<close> is the number of modes the profile holds.
\<close>

record usbprofile =
  serial :: string
  keymap :: keymap_ptr
  currentmode :: "nat option"
  modecount :: nat

text \<open>
  \<open>usbdevice\<close>, the fields \<open>usb.c\<close> touches. \<open>handle\<close> and \<open>infifo\<close> are the transport
  handle and the control path's descriptor (0 when absent); \<open>queue\<close> is the array of
  \<open>QUEUE_LEN\<close> buffer pointers, \<open>None\<close> for a null pointer. The two pthread mutexes of
  the struct are followed through the events of the trace below.
\<close>

record usbdevice =
  handle :: int
  infifo :: int
  model :: int
  vendor :: int
  product' :: int
  features :: int
  name :: string
  active :: int
  pollrate :: int
  profile :: usbprofile
  queue :: "msg option list"
  queuecount :: int
  fwversion :: int
  hw :: int

text \<open>
  The constants and macros of the headers (\<open>usb.h\<close>, \<open>device.h\<close>), which are not part of
  the source at hand, are parameters of the model.
\<close>

record config =
  P_K65 :: int
  P_K70 :: int
  P_K70_NRGB :: int
  FEAT_RGB :: int
  FEAT_FWVERSION :: int
  FEAT_FWUPDATE :: int
  FEAT_STD_RGB :: int
  FEAT_STD_NRGB :: int
  NK95_HWOFF :: int
  NK95_HWON :: int
  QUEUE_LEN :: nat
  MSG_SIZE :: nat
  NAME_LEN :: nat
  IS_RGB :: "int \<Rightarrow> int \<Rightarrow> bool"
  NEEDS_FW_UPDATE :: "usbdevice \<Rightarrow> bool"

text \<open>
  Modelled from the spec: the macro \<open>HAS_FEATURES(kb, feat)\<close> of \<open>usb.h\<close> is missing;
  \<open>features\<close> is a "bitmask of capabilities" and a feature is a bit of it, so the test
  is that every bit of \<open>feat\<close> is set.
\<close>

definition HAS_FEATURES :: "usbdevice \<Rightarrow> int \<Rightarrow> bool" where
  "HAS_FEATURES kb feat \<longleftrightarrow> features kb AND feat = feat"

text \<open>\<open>memset(kb, 0, sizeof(usbdevice))\<close>: every field zero, every pointer null.\<close>

definition zero_usbprofile :: usbprofile where
  "zero_usbprofile = \<lparr>serial = [], keymap = Keymap_null, currentmode = None, modecount = 0\<rparr>"

definition zero_usbdevice :: "config \<Rightarrow> usbdevice" where
  "zero_usbdevice c =
     \<lparr>handle = 0, infifo = 0, model = 0, vendor = 0, product' = 0, features = 0, name = [],
      active = 0, pollrate = 0, profile = zero_usbprofile,
      queue = replicate (QUEUE_LEN c) None, queuecount = 0, fwversion = 0, hw = 0\<rparr>"

subsection \<open>\<open>usbqueue\<close>\<close>

text \<open>
  The value of an \<open>int\<close> expression whose exact value is \<open>x\<close>: an \<open>int\<close> has 32 bits, and a
  sum outside \<open>INT_MIN .. INT_MAX\<close> (undefined in C) wraps around in two's complement, as
  it does in the compiled code.
\<close>

abbreviation INT_MAX :: int where
  "INT_MAX \<equiv> 2147483647"

definition c_int :: "int \<Rightarrow> int" where
  "c_int x = (x + 2147483648) mod 4294967296 - 2147483648"

text \<open>
  \<open>messages\<close> is a pointer to the caller's bytes: byte \<open>j\<close> behind it is \<open>messages j\<close>.
  Message \<open>i\<close> is the \<open>MSG_SIZE\<close> bytes from \<open>messages + MSG_SIZE * i\<close>. The offset is
  the exact product: \<open>MSG_SIZE\<close> is a constant of \<open>usb.h\<close>, and \<open>i\<close> is below \<open>QUEUE_LEN\<close>
  wherever the copy has a result.
\<close>

definition message_at :: "config \<Rightarrow> (nat \<Rightarrow> uchar) \<Rightarrow> nat \<Rightarrow> msg" where
  "message_at c messages i = map messages [MSG_SIZE c * i ..< MSG_SIZE c * i + MSG_SIZE c]"

text \<open>
  \<open>memcpy(kb->queue[idx], m, MSG_SIZE)\<close>. Writing through a null pointer or outside the
  array is undefined in C: the model has no result there (\<open>None\<close>).
\<close>

definition memcpy_slot :: "msg option list \<Rightarrow> int \<Rightarrow> msg \<Rightarrow> msg option list option" where
  "memcpy_slot q idx m =
     (if 0 \<le> idx \<and> nat idx < length q \<and> q ! nat idx \<noteq> None
      then Some (q[nat idx := Some m]) else None)"

text \<open>The copy loop \<open>for(int i = 0; i < count; i++)\<close>, from \<open>i\<close> with \<open>k\<close> rounds to go.\<close>

fun copy_messages ::
  "config \<Rightarrow> (nat \<Rightarrow> uchar) \<Rightarrow> int \<Rightarrow> nat \<Rightarrow> nat \<Rightarrow> msg option list \<Rightarrow> msg option list option"
where
  "copy_messages c messages qc i 0 q = Some q"
| "copy_messages c messages qc i (Suc k) q =
     (case memcpy_slot q (c_int (qc + int i)) (message_at c messages i) of
        None \<Rightarrow> None
      | Some q' \<Rightarrow> copy_messages c messages qc (Suc i) k q')"

definition usbqueue ::
  "config \<Rightarrow> usbdevice \<Rightarrow> (nat \<Rightarrow> uchar) \<Rightarrow> int \<Rightarrow> (int \<times> usbdevice) option"
where
  "usbqueue c kb messages count =
     (if handle kb = 0 \<or> \<not> HAS_FEATURES kb (FEAT_RGB c) then Some (0, kb)
      else if c_int (queuecount kb + count) > int (QUEUE_LEN c) then Some (- 1, kb)
      else (case copy_messages c messages (queuecount kb) 0 (nat count) (queue kb) of
              None \<Rightarrow> None
            | Some q' \<Rightarrow>
                Some (0, kb\<lparr>queue := q', queuecount := c_int (queuecount kb + count)\<rparr>)))"

text \<open>A sequence of enqueue calls on one session, each on the state the last one left.\<close>

fun usbqueue_all ::
  "config \<Rightarrow> usbdevice \<Rightarrow> ((nat \<Rightarrow> uchar) \<times> int) list \<Rightarrow> usbdevice option"
where
  "usbqueue_all c kb [] = Some kb"
| "usbqueue_all c kb ((messages, count) # calls) =
     (case usbqueue c kb messages count of
        None \<Rightarrow> None
      | Some (r, kb') \<Rightarrow> usbqueue_all c kb' calls)"

subsection \<open>The world outside \<open>usb.c\<close>\<close>

text \<open>
  Every function \<open>usb.c\<close> calls in another file is a call to the environment. A call gets
  the device record (the C functions take \<open>kb\<close>) and the state of the outside world, and
  gives back its \<open>int\<close> result (unused for a \<open>void\<close> function), the record as it left it
  and the new outside world. Nothing is assumed about what a call does.
\<close>

datatype call =
    Makedevpath | Rmdevpath | Inputopen | Inputclose | Updateindicators int | Nk95cmd int
  | Writefwnode | Getfwversion | Hwloadprofile int | Os_resetusb string int | Setactive int
  | Updatergb int | Usbdequeue | Updateconnected | Freeprofile | Closehandle
  | Notifyconnect int

type_synonym 'w env = "call \<Rightarrow> usbdevice \<Rightarrow> 'w \<Rightarrow> int \<times> usbdevice \<times> 'w"

datatype lock = Mutex | Keymutex

datatype delay = Short | Medium | Long

text \<open>
  The trace records, in order, what a run did outside the record: each environment call
  with its result and the record it left, the pthread calls on the two mutexes, \<open>malloc\<close>
  and \<open>free\<close> of queue buffer \<open>q\<close>, the profile-store calls, the \<open>DELAY_*\<close> macros and
  console output.
\<close>

datatype event =
    Ext call int usbdevice
  | Mutex_init lock | Mutex_lock lock | Mutex_unlock lock | Mutex_destroy lock
  | Malloc nat | Free nat
  | Findstore string "usbprofile option" | Addstore string
  | Delay delay
  | Printf string

text \<open>
  Modelled from the spec: the profile store behind \<open>findstore\<close> and \<open>addstore\<close>
  (\<open>profile.c\<close>, missing) is "a serial-number-keyed snapshot of a profile", with "at most
  one store entry per serial": a map from serials to profiles.
\<close>

record 'w sys =
  dev :: usbdevice
  world :: 'w
  store :: "string \<rightharpoonup> usbprofile"
  trace :: "event list"

definition emit :: "event \<Rightarrow> 'w sys \<Rightarrow> 'w sys" where
  "emit e s = s\<lparr>trace := trace s @ [e]\<rparr>"

definition emits :: "event list \<Rightarrow> 'w sys \<Rightarrow> 'w sys" where
  "emits es s = s\<lparr>trace := trace s @ es\<rparr>"

definition upd :: "(usbdevice \<Rightarrow> usbdevice) \<Rightarrow> 'w sys \<Rightarrow> 'w sys" where
  "upd f s = s\<lparr>dev := f (dev s)\<rparr>"

definition ext :: "'w env \<Rightarrow> call \<Rightarrow> 'w sys \<Rightarrow> int \<times> 'w sys" where
  "ext env c s =
     (case env c (dev s) (world s) of
        (r, kb, w) \<Rightarrow> (r, s\<lparr>dev := kb, world := w, trace := trace s @ [Ext c r kb]\<rparr>))"

text \<open>
  Modelled from the spec: \<open>getusbmode(index, profile, keymap) -> mode\<close> (\<open>profile.c\<close>,
  missing) "synthesizes/fetches a named mode slot within a profile": afterwards the
  profile holds the modes up to \<open>index\<close>, and the result points to mode \<open>index\<close>.
\<close>

definition getusbmode :: "nat \<Rightarrow> usbprofile \<Rightarrow> keymap_ptr \<Rightarrow> nat \<times> usbprofile" where
  "getusbmode i p km = (i, p\<lparr>modecount := max (modecount p) (Suc i)\<rparr>)"

text \<open>\<open>getusbmode(1, ...); getusbmode(2, ...);\<close> with the results dropped.\<close>

definition getusbmode_1_2 :: "usbdevice \<Rightarrow> usbdevice" where
  "getusbmode_1_2 kb =
     kb\<lparr>profile := snd (getusbmode 2 (snd (getusbmode 1 (profile kb) Keymap_system))
                           Keymap_system)\<rparr>"

text \<open>\<open>kb->profile.currentmode = getusbmode(0, &kb->profile, keymap_system);\<close>\<close>

definition set_currentmode_0 :: "usbdevice \<Rightarrow> usbdevice" where
  "set_currentmode_0 kb =
     (case getusbmode 0 (profile kb) Keymap_system of
        (m, p) \<Rightarrow> kb\<lparr>profile := p\<lparr>currentmode := Some m\<rparr>\<rparr>)"

subsection \<open>\<open>setupusb\<close>\<close>

text \<open>\<open>%d\<close> of \<open>snprintf\<close>.\<close>

fun show_nat :: "nat \<Rightarrow> string" where
  "show_nat n =
     (if n < 10 then [''0123456789'' ! n]
      else show_nat (n div 10) @ [''0123456789'' ! (n mod 10)])"

definition show_int :: "int \<Rightarrow> string" where
  "show_int i = (if i < 0 then CHR ''-'' # show_nat (nat (- i)) else show_nat (nat i))"

text \<open>
  Lines 29 to 35: model, identifiers and features from the vendor/product pair and the
  global \<open>features_mask\<close>; a name made up when none was assigned. \<open>snprintf\<close> writes at
  most \<open>NAME_LEN - 1\<close> characters.
\<close>

definition setupusb_resolve :: "config \<Rightarrow> int \<Rightarrow> usbdevice \<Rightarrow> int \<Rightarrow> int \<Rightarrow> usbdevice" where
  "setupusb_resolve c features_mask kb vnd prd =
     (let kb = kb\<lparr>model := (if prd = P_K65 c then 65
                             else if prd = P_K70 c \<or> prd = P_K70_NRGB c then 70 else 95),
                   vendor := vnd,
                   product' := prd,
                   features := (if IS_RGB c vnd prd then FEAT_STD_RGB c else FEAT_STD_NRGB c)
                               AND features_mask\<rparr>
      in if name kb = []
         then kb\<lparr>name := take (NAME_LEN c - 1)
                        (''Corsair K'' @ show_int (model kb) @
                         (if HAS_FEATURES kb (FEAT_RGB c) then '' RGB'' else []))\<rparr>
         else kb)"

text \<open>Lines 62 to 73: the non-RGB board.\<close>

definition setupusb_nrgb :: "config \<Rightarrow> 'w env \<Rightarrow> 'w sys \<Rightarrow> int \<times> 'w sys" where
  "setupusb_nrgb c env s =
     (let s = snd (ext env (Nk95cmd (NK95_HWOFF c)) s);
          s = upd (\<lambda>kb. kb\<lparr>active := 1\<rparr>) s;
          s = snd (ext env Writefwnode s);
          s = upd (\<lambda>kb. kb\<lparr>profile := (profile kb)\<lparr>keymap := Keymap_system\<rparr>\<rparr>) s;
          s = upd (\<lambda>kb. kb\<lparr>pollrate := - 1\<rparr>) s;
          s = upd set_currentmode_0 s;
          s = (if model (dev s) = 95 then upd getusbmode_1_2 s else s)
      in (0, s))"

text \<open>Lines 85 to 92: the device needs a firmware update.\<close>

definition setupusb_fwupdate :: "config \<Rightarrow> 'w sys \<Rightarrow> int \<times> 'w sys" where
  "setupusb_fwupdate c s =
     (let s = emit (Printf (''Device needs a firmware update. '' @
                            ''Please issue a fwupdate command.\<newline>'')) s;
          s = upd (\<lambda>kb. kb\<lparr>features := FEAT_RGB c OR FEAT_FWVERSION c OR FEAT_FWUPDATE c\<rparr>) s;
          s = upd (\<lambda>kb. kb\<lparr>active := 1\<rparr>) s;
          s = upd (\<lambda>kb. kb\<lparr>profile := (profile kb)\<lparr>keymap := Keymap_system\<rparr>\<rparr>) s;
          s = upd set_currentmode_0 s;
          s = upd getusbmode_1_2 s
      in (0, s))"

text \<open>Lines 96 to 119: restore the stored profile, or load the profile from the device.\<close>

definition setupusb_restore :: "'w env \<Rightarrow> bool \<Rightarrow> 'w sys \<Rightarrow> int \<times> 'w sys" where
  "setupusb_restore env fail s =
     (let s = emit (Delay Long) s;
          found = store s (serial (profile (dev s)));
          s = emit (Findstore (serial (profile (dev s))) found) s
      in case found of
           Some p \<Rightarrow>
             (let s = upd (\<lambda>kb. kb\<lparr>profile := p\<rparr>) s;
                  s = (if model (dev s) = 95 then upd getusbmode_1_2 s else s)
              in if fail then (- 2, s)
                 else (case ext env (Hwloadprofile 0) s of
                         (r, s) \<Rightarrow> if r \<noteq> 0 then (- 2, s) else (0, emit (Delay Short) s)))
         | None \<Rightarrow>
             (let s = upd (\<lambda>kb. kb\<lparr>profile := (profile kb)\<lparr>keymap := Keymap_system\<rparr>\<rparr>) s;
                  s = upd set_currentmode_0 s;
                  s = (if model (dev s) = 95 then upd getusbmode_1_2 s else s)
              in if fail then (- 2, s)
                 else (case ext env (Hwloadprofile 1) s of
                         (r, s) \<Rightarrow> if r \<noteq> 0 then (- 2, s) else (0, emit (Delay Short) s))))"

text \<open>
  Lines 77 and 78: the queue buffers. \<open>malloc\<close> is taken to succeed, as the source takes
  it; the fresh bytes, indeterminate in C, are zero here and read by nothing.
\<close>

definition create_queue :: "config \<Rightarrow> 'w sys \<Rightarrow> 'w sys" where
  "create_queue c s =
     emits (map Malloc [0 ..< QUEUE_LEN c])
       (upd (\<lambda>kb. kb\<lparr>queue := replicate (QUEUE_LEN c) (Some (replicate (MSG_SIZE c) 0))\<rparr>) s)"

definition setupusb :: "config \<Rightarrow> 'w env \<Rightarrow> int \<Rightarrow> 'w sys \<Rightarrow> int \<Rightarrow> int \<Rightarrow> int \<times> 'w sys" where
  "setupusb c env features_mask s vnd prd =
     (let s = upd (\<lambda>kb. setupusb_resolve c features_mask kb vnd prd) s;
          s = emits [Mutex_init Mutex, Mutex_init Keymutex, Mutex_lock Mutex] s
      in case ext env Makedevpath s of
           (r, s) \<Rightarrow>
             if r \<noteq> 0
             then (- 1, emits [Mutex_unlock Mutex, Mutex_destroy Mutex, Mutex_destroy Keymutex] s)
             else (case ext env Inputopen s of
                     (r, s) \<Rightarrow>
                       if r = 0
                       then (- 1, emits [Mutex_unlock Mutex, Mutex_destroy Mutex,
                                         Mutex_destroy Keymutex]
                                    (snd (ext env Rmdevpath s)))
                       else (let s = snd (ext env (Updateindicators 1) s)
                             in if \<not> HAS_FEATURES (dev s) (FEAT_RGB c) then setupusb_nrgb c env s
                                else (let s = create_queue c s
                                      in case ext env Getfwversion s of
                                           (r, s) \<Rightarrow>
                                             (let fail = (r \<noteq> 0)
                                              in if \<not> fail \<and> NEEDS_FW_UPDATE c (dev s)
                                                 then setupusb_fwupdate c s
                                                 else setupusb_restore env fail s)))))"

subsection \<open>\<open>revertusb\<close>\<close>

text \<open>
  The two \<open>while(kb->queuecount > 0)\<close> loops, which differ in the delay only. What
  \<open>usbdequeue\<close> does to \<open>queuecount\<close> is not in this file, so the loop is not known to end:
  it runs on fuel, and \<open>None\<close> is a loop still running when the fuel is spent. The result
  is \<open>- 1\<close> for the \<open>return -1\<close> inside the loop and 0 when the loop is left.
\<close>

fun drain_queue :: "'w env \<Rightarrow> delay \<Rightarrow> nat \<Rightarrow> 'w sys \<Rightarrow> (int \<times> 'w sys) option" where
  "drain_queue env d 0 s = (if queuecount (dev s) > 0 then None else Some (0, s))"
| "drain_queue env d (Suc n) s =
     (if queuecount (dev s) > 0
      then (case ext env Usbdequeue (emit (Delay d) s) of
              (r, s') \<Rightarrow> if r \<le> 0 then Some (- 1, s') else drain_queue env d n s')
      else Some (0, s))"

definition revertusb :: "config \<Rightarrow> 'w env \<Rightarrow> nat \<Rightarrow> 'w sys \<Rightarrow> (int \<times> 'w sys) option" where
  "revertusb c env fuel s =
     (if NEEDS_FW_UPDATE c (dev s) then Some (0, s)
      else if \<not> HAS_FEATURES (dev s) (FEAT_RGB c)
      then Some (0, snd (ext env (Nk95cmd (NK95_HWON c)) s))
      else (case drain_queue env Short fuel s of
              None \<Rightarrow> None
            | Some (r, s) \<Rightarrow>
                if r \<noteq> 0 then Some (- 1, s)
                else (let s = emit (Delay Medium) s;
                          s = snd (ext env (Setactive 0) s)
                      in case drain_queue env Medium fuel s of
                           None \<Rightarrow> None
                         | Some (r, s) \<Rightarrow> if r \<noteq> 0 then Some (- 1, s) else Some (0, s))))"

subsection \<open>\<open>_resetusb\<close> and \<open>usb_tryreset\<close>\<close>

text \<open>\<open>_resetusb\<close> (an Isabelle name cannot start with an underscore).\<close>

definition resetusb_fn :: "config \<Rightarrow> 'w env \<Rightarrow> 'w sys \<Rightarrow> string \<Rightarrow> int \<Rightarrow> int \<times> 'w sys" where
  "resetusb_fn c env s file line =
     (let s = emit (Delay Long) s
      in case ext env (Os_resetusb file line) s of
           (res, s) \<Rightarrow>
             if res \<noteq> 0 then (res, s)
             else (let s = emit (Delay Long) s;
                       s = upd (\<lambda>kb. kb\<lparr>queuecount := 0\<rparr>) s
                   in if \<not> HAS_FEATURES (dev s) (FEAT_RGB c) then (0, s)
                      else (case ext env Getfwversion s of
                              (r, s) \<Rightarrow>
                                if r \<noteq> 0 then (- 1, s)
                                else if NEEDS_FW_UPDATE c (dev s) then (0, s)
                                else (let s = snd (ext env (Setactive (active (dev s))) s);
                                          (res, s) =
                                            (if hw (dev s) = 0
                                             then (let found = store s (serial (profile (dev s)));
                                                       s = emit (Findstore (serial (profile (dev s)))
                                                                   found) s
                                                   in if found \<noteq> None
                                                      then ext env (Hwloadprofile 0) s
                                                      else ext env (Hwloadprofile 1) s)
                                             else (0, s));
                                          s = snd (ext env (Updatergb 1) s)
                                      in (if res \<noteq> 0 then - 1 else 0, s)))))"

text \<open>
  Modelled from the spec: the macro \<open>resetusb(kb)\<close> of \<open>usb.h\<close> is missing; the exposed
  contract names \<open>resetusb\<close> for the reset of section 4.4, which \<open>_resetusb\<close> implements
  with the caller's file and line for the log.
\<close>

definition resetusb :: "config \<Rightarrow> 'w env \<Rightarrow> 'w sys \<Rightarrow> int \<times> 'w sys" where
  "resetusb c env s = resetusb_fn c env s ''usb.c'' 178"

text \<open>
  The \<open>while(1)\<close> loop of \<open>usb_tryreset\<close>, on fuel: one unit for each reset attempt, and
  \<open>None\<close> when the loop is still retrying after the last unit.
\<close>

fun usb_tryreset_loop :: "config \<Rightarrow> 'w env \<Rightarrow> nat \<Rightarrow> 'w sys \<Rightarrow> (int \<times> 'w sys) option" where
  "usb_tryreset_loop c env 0 s = None"
| "usb_tryreset_loop c env (Suc n) s =
     (case resetusb c env (emit (Delay Long) s) of
        (res, s') \<Rightarrow>
          if res = 0 then Some (0, emit (Printf ''Reset success\<newline>'') s')
          else if res = - 2 then Some (- 1, emit (Printf ''Reset failed. Disconnecting.\<newline>'') s')
          else usb_tryreset_loop c env n s')"

definition usb_tryreset :: "config \<Rightarrow> 'w env \<Rightarrow> nat \<Rightarrow> 'w sys \<Rightarrow> (int \<times> 'w sys) option" where
  "usb_tryreset c env fuel s =
     usb_tryreset_loop c env fuel (emit (Printf ''Attempting reset...\<newline>'') s)"

subsection \<open>\<open>closeusb\<close>\<close>

text \<open>
  Lines 200 and 201: \<open>free\<close> of every queue pointer. \<open>free\<close> of a null pointer does
  nothing, so the trace shows the buffers really freed.
\<close>

definition free_queue :: "config \<Rightarrow> 'w sys \<Rightarrow> 'w sys" where
  "free_queue c s =
     emits (map Free (filter (\<lambda>i. i < length (queue (dev s)) \<and> queue (dev s) ! i \<noteq> None)
                        [0 ..< QUEUE_LEN c])) s"

text \<open>
  Modelled from the spec: \<open>addstore(serial, hint) -> profile-slot\<close> (\<open>profile.c\<close>,
  missing) gives the one entry of the serial, made if there was none. Lines 206 and 207
  then fill it with the profile by \<open>memcpy\<close>.
\<close>

definition addstore_memcpy :: "'w sys \<Rightarrow> 'w sys" where
  "addstore_memcpy s =
     (let ser = serial (profile (dev s));
          s = emit (Addstore ser) s
      in s\<lparr>store := (store s)(ser \<mapsto> profile (dev s))\<rparr>)"

definition closeusb :: "config \<Rightarrow> 'w env \<Rightarrow> 'w sys \<Rightarrow> int \<times> 'w sys" where
  "closeusb c env s =
     (if infifo (dev s) = 0 then (0, s)
      else (let s = emit (Mutex_lock Keymutex) s;
                s = (if handle (dev s) \<noteq> 0
                     then (let s = emit (Printf (''Disconnecting '' @ name (dev s) @ '' (S/N: '' @
                                                 serial (profile (dev s)) @ '')\<newline>'')) s;
                               s = snd (ext env Inputclose s);
                               s = snd (ext env Updateconnected s);
                               s = free_queue c s;
                               s = (if fwversion (dev s) = 0 then snd (ext env Freeprofile s)
                                    else addstore_memcpy s);
                               s = snd (ext env Closehandle s)
                           in snd (ext env (Notifyconnect 0) s))
                     else snd (ext env Updateconnected s));
                s = snd (ext env Rmdevpath s);
                s = emits [Mutex_unlock Keymutex, Mutex_destroy Keymutex,
                           Mutex_unlock Mutex, Mutex_destroy Mutex] s
            in (0, s\<lparr>dev := zero_usbdevice c\<rparr>)))"

subsection \<open>Reading a trace\<close>

text \<open>The environment calls of a trace, in order, each with its result.\<close>

fun ext_results :: "event list \<Rightarrow> (call \<times> int) list" where
  "ext_results [] = []"
| "ext_results (Ext c r kb # es) = (c, r) # ext_results es"
| "ext_results (e # es) = ext_results es"

definition ext_calls :: "event list \<Rightarrow> call list" where
  "ext_calls tr = map fst (ext_results tr)"

text \<open>
  A frame condition on the environment: the call leaves the value \<open>f\<close> reads from the
  record as it was.
\<close>

definition leaves :: "'w env \<Rightarrow> call \<Rightarrow> (usbdevice \<Rightarrow> 'a) \<Rightarrow> bool" where
  "leaves env call f \<longleftrightarrow> (\<forall>kb w. f (fst (snd (env call kb w))) = f kb)"

text \<open>
  A session whose queue is in order: all \<open>QUEUE_LEN\<close> buffers allocated and the count
  within the array.
\<close>

definition queue_ok :: "config \<Rightarrow> usbdevice \<Rightarrow> bool" where
  "queue_ok c kb \<longleftrightarrow>
     length (queue kb) = QUEUE_LEN c \<and> None \<notin> set (queue kb) \<and>
     0 \<le> queuecount kb \<and> queuecount kb \<le> int (QUEUE_LEN c)"

text \<open>One round of a drain loop of \<open>revertusb\<close>: the delay, then \<open>usbdequeue(kb)\<close>.\<close>

definition dequeue :: "'w env \<Rightarrow> delay \<Rightarrow> 'w sys \<Rightarrow> int \<times> 'w sys" where
  "dequeue env d s = ext env Usbdequeue (emit (Delay d) s)"

text \<open>
  The transport is stuck at round \<open>k + 1\<close> of a drain loop started in \<open>s\<close>: \<open>k\<close> rounds
  find entries queued and dequeue one (a positive result), the next round finds entries
  queued and its dequeue yields nothing. The value is the state that dequeue leaves.
\<close>

fun stuck_after :: "'w env \<Rightarrow> delay \<Rightarrow> nat \<Rightarrow> 'w sys \<Rightarrow> 'w sys option" where
  "stuck_after env d 0 s =
     (if queuecount (dev s) > 0 \<and> fst (dequeue env d s) \<le> 0
      then Some (snd (dequeue env d s)) else None)"
| "stuck_after env d (Suc k) s =
     (if queuecount (dev s) > 0 \<and> fst (dequeue env d s) > 0
      then stuck_after env d k (snd (dequeue env d s)) else None)"

text \<open>The queue is empty after exactly \<open>k\<close> rounds, each of which dequeued an entry.\<close>

fun drained_after :: "'w env \<Rightarrow> delay \<Rightarrow> nat \<Rightarrow> 'w sys \<Rightarrow> 'w sys option" where
  "drained_after env d 0 s = (if queuecount (dev s) > 0 then None else Some s)"
| "drained_after env d (Suc k) s =
     (if queuecount (dev s) > 0 \<and> fst (dequeue env d s) > 0
      then drained_after env d k (snd (dequeue env d s)) else None)"

text \<open>The deactivation step between the two drain loops (lines 135 and 136).\<close>

definition deactivate :: "'w env \<Rightarrow> 'w sys \<Rightarrow> 'w sys" where
  "deactivate env s = snd (ext env (Setactive 0) (emit (Delay Medium) s))"

text \<open>One round of the loop of \<open>usb_tryreset\<close>: the delay, then \<open>resetusb(kb)\<close>.\<close>

definition attempt :: "config \<Rightarrow> 'w env \<Rightarrow> 'w sys \<Rightarrow> int \<times> 'w sys" where
  "attempt c env s = resetusb c env (emit (Delay Long) s)"

text \<open>
  Attempt \<open>k + 1\<close> of a retry loop started in \<open>s\<close>, when the \<open>k\<close> attempts before it
  all returned something other than 0 and \<open>- 2\<close>; \<open>None\<close> when one of them did not.
\<close>

fun nth_attempt :: "config \<Rightarrow> 'w env \<Rightarrow> nat \<Rightarrow> 'w sys \<Rightarrow> (int \<times> 'w sys) option" where
  "nth_attempt c env 0 s = Some (attempt c env s)"
| "nth_attempt c env (Suc k) s =
     (case attempt c env s of
        (res, s') \<Rightarrow> if res = 0 \<or> res = - 2 then None else nth_attempt c env k s')"

subsection \<open>A small instance\<close>

text \<open>
  An instance to run the model on: identifiers and feature bits in the style of the
  Corsair boards, a queue of four two-byte messages, a device that needs a firmware
  update while its version is unknown. The outside world of the instance counts the
  calls made so far; a call's result is looked up in a table by call and count. A
  successful firmware query stores the version \<open>fw\<close>, a successful dequeue takes one
  entry off the queue, and nothing else touches the record.
\<close>

definition ex_config :: config where
  "ex_config =
     \<lparr>P_K65 = 6935, P_K70 = 6931, P_K70_NRGB = 6921,
      FEAT_RGB = 1, FEAT_FWVERSION = 16, FEAT_FWUPDATE = 32,
      FEAT_STD_RGB = 63, FEAT_STD_NRGB = 12,
      NK95_HWOFF = 2, NK95_HWON = 1,
      QUEUE_LEN = 4, MSG_SIZE = 2, NAME_LEN = 32,
      IS_RGB = (\<lambda>v p. v = 6940 \<and> p \<noteq> 6921 \<and> p \<noteq> 6920),
      NEEDS_FW_UPDATE = (\<lambda>kb. fwversion kb = 0)\<rparr>"

definition ex_env :: "int \<Rightarrow> (call \<Rightarrow> nat \<Rightarrow> int) \<Rightarrow> nat env" where
  "ex_env fw res call kb w =
     (res call w,
      if call = Getfwversion \<and> res call w = 0 then kb\<lparr>fwversion := fw\<rparr>
      else if call = Usbdequeue \<and> res call w > 0 then kb\<lparr>queuecount := queuecount kb - 1\<rparr>
      else kb,
      Suc w)"

text \<open>As \<open>ex_env\<close>, and \<open>setactive\<close> queues one message.\<close>

definition ex_env_setactive :: "int \<Rightarrow> (call \<Rightarrow> nat \<Rightarrow> int) \<Rightarrow> nat env" where
  "ex_env_setactive fw res call kb w =
     (case call of
        Setactive a \<Rightarrow> (res call w, kb\<lparr>active := a, queuecount := queuecount kb + 1\<rparr>, Suc w)
      | _ \<Rightarrow> ex_env fw res call kb w)"

text \<open>Result tables: every call succeeds (\<open>inputopen\<close> and \<open>usbdequeue\<close> succeed with 1).\<close>

definition res_ok :: "call \<Rightarrow> nat \<Rightarrow> int" where
  "res_ok call w = (if call = Inputopen \<or> call = Usbdequeue then 1 else 0)"

text \<open>The firmware query fails.\<close>

definition res_fwfail :: "call \<Rightarrow> nat \<Rightarrow> int" where
  "res_fwfail call w = (if call = Getfwversion then 1 else res_ok call w)"

text \<open>The firmware query fails in the first reset attempt only (calls 0 and 1).\<close>

definition res_fwfail_once :: "call \<Rightarrow> nat \<Rightarrow> int" where
  "res_fwfail_once call w = (if call = Getfwversion \<and> w < 2 then 1 else res_ok call w)"

text \<open>The transport reset fails with \<open>- 1\<close> five times (calls 0 to 4), then succeeds.\<close>

definition res_reset_5 :: "call \<Rightarrow> nat \<Rightarrow> int" where
  "res_reset_5 call w =
     (case call of Os_resetusb file line \<Rightarrow> if w < 5 then - 1 else 0 | _ \<Rightarrow> res_ok call w)"

text \<open>The transport reset reports \<open>- 2\<close>.\<close>

definition res_reset_gone :: "call \<Rightarrow> nat \<Rightarrow> int" where
  "res_reset_gone call w = (case call of Os_resetusb file line \<Rightarrow> - 2 | _ \<Rightarrow> res_ok call w)"

text \<open>The hardware profile load fails.\<close>

definition res_hwfail :: "call \<Rightarrow> nat \<Rightarrow> int" where
  "res_hwfail call w = (case call of Hwloadprofile m \<Rightarrow> 1 | _ \<Rightarrow> res_ok call w)"

text \<open>The second call of the run, when it is a dequeue, yields nothing.\<close>

definition res_stuck :: "call \<Rightarrow> nat \<Rightarrow> int" where
  "res_stuck call w = (if call = Usbdequeue \<and> w = 1 then 0 else res_ok call w)"

text \<open>The third call of the run, when it is a dequeue, yields nothing.\<close>

definition res_stuck_late :: "call \<Rightarrow> nat \<Rightarrow> int" where
  "res_stuck_late call w = (if call = Usbdequeue \<and> w = 2 then 0 else res_ok call w)"

text \<open>
  A session record with a transport handle and a serial, as the USB layer hands it to
  \<open>setupusb\<close>, and the same session in use: RGB features, queue allocated, control path
  open.
\<close>

definition ex_kb :: usbdevice where
  "ex_kb = (zero_usbdevice ex_config)
             \<lparr>handle := 3, profile := zero_usbprofile\<lparr>serial := ''SN1''\<rparr>\<rparr>"

definition ex_kb_rgb :: usbdevice where
  "ex_kb_rgb = ex_kb\<lparr>infifo := 4, model := 95, features := 63, active := 1, fwversion := 288,
                      queue := replicate 4 (Some [0, 0])\<rparr>"

definition ex_sys :: "usbdevice \<Rightarrow> nat sys" where
  "ex_sys kb = \<lparr>dev = kb, world = 0, store = Map.empty, trace = []\<rparr>"

text \<open>A profile stored for the serial by an earlier session.\<close>

definition ex_stored :: usbprofile where
  "ex_stored = \<lparr>serial = ''SN1'', keymap = Keymap_other 7, currentmode = Some 0, modecount = 1\<rparr>"

text \<open>The caller's bytes: byte \<open>j\<close> is \<open>j\<close>.\<close>

definition ex_messages :: "nat \<Rightarrow> uchar" where
  "ex_messages j = of_nat j"

text \<open>The session of a non-RGB K95 in use.\<close>

definition ex_kb_nrgb :: usbdevice where
  "ex_kb_nrgb = ex_kb\<lparr>infifo := 4, model := 95, features := 12, active := 1, pollrate := - 1\<rparr>"

text \<open>
  Lines 99 to 104 on a record: the profile overwritten with the stored one and, on a
  K95, the modes 1 and 2 made sure of.
\<close>

definition overwritten :: "usbdevice \<Rightarrow> usbprofile \<Rightarrow> usbdevice" where
  "overwritten kb p =
     (if model kb = 95 then getusbmode_1_2 (kb\<lparr>profile := p\<rparr>) else kb\<lparr>profile := p\<rparr>)"

text \<open>The same start with a profile stored for the serial.\<close>

definition ex_sys_stored :: "usbdevice \<Rightarrow> nat sys" where
  "ex_sys_stored kb = (ex_sys kb)\<lparr>store := [''SN1'' \<mapsto> ex_stored]\<rparr>"

text \<open>
  The calls \<open>_resetusb\<close> makes after it has zeroed \<open>queuecount\<close> leave \<open>queuecount\<close>
  alone.
\<close>

definition reinit_keeps_queuecount :: "'w env \<Rightarrow> bool" where
  "reinit_keeps_queuecount env \<longleftrightarrow>
     leaves env Getfwversion queuecount \<and> (\<forall>a. leaves env (Setactive a) queuecount) \<and>
     leaves env (Hwloadprofile 0) queuecount \<and> leaves env (Hwloadprofile 1) queuecount \<and>
     leaves env (Updatergb 1) queuecount"

text \<open>The session of the instance after it has lost its transport handle.\<close>

definition ex_kb_lost :: usbdevice where
  "ex_kb_lost = ex_kb_rgb\<lparr>handle := 0\<rparr>"

text \<open>The event of a dequeue that yielded nothing: \<open>usbdequeue(kb) <= 0\<close>.\<close>

fun failed_dequeue :: "event \<Rightarrow> bool" where
  "failed_dequeue (Ext c r kb) \<longleftrightarrow> c = Usbdequeue \<and> r \<le> 0"
| "failed_dequeue e \<longleftrightarrow> False"

section \<open>Properties\<close>

subsection \<open>Basic facts\<close>

lemma emit_simps [simp]:
  "trace (emit e s) = trace s @ [e]" "dev (emit e s) = dev s"
  "world (emit e s) = world s" "store (emit e s) = store s"
  by (simp_all add: emit_def)

lemma emits_simps [simp]:
  "trace (emits es s) = trace s @ es" "dev (emits es s) = dev s"
  "world (emits es s) = world s" "store (emits es s) = store s"
  by (simp_all add: emits_def)

lemma upd_simps [simp]:
  "trace (upd f s) = trace s" "dev (upd f s) = f (dev s)"
  "world (upd f s) = world s" "store (upd f s) = store s"
  by (simp_all add: upd_def)

lemma ext_simps [simp]:
  "trace (snd (ext env c s)) = trace s @ [Ext c (fst (ext env c s)) (dev (snd (ext env c s)))]"
  "store (snd (ext env c s)) = store s"
  by (simp_all add: ext_def split: prod.splits)

lemma ext_results_append [simp]: "ext_results (xs @ ys) = ext_results xs @ ext_results ys"
  by (induction xs rule: ext_results.induct) auto

lemma ext_calls_append [simp]: "ext_calls (xs @ ys) = ext_calls xs @ ext_calls ys"
  by (simp add: ext_calls_def)

lemma ext_calls_simps [simp]:
  "ext_calls [] = []"
  "ext_calls (Ext c r kb # es) = c # ext_calls es"
  "ext_calls (Mutex_init l # es) = ext_calls es"
  "ext_calls (Mutex_lock l # es) = ext_calls es"
  "ext_calls (Mutex_unlock l # es) = ext_calls es"
  "ext_calls (Mutex_destroy l # es) = ext_calls es"
  "ext_calls (Malloc q # es) = ext_calls es"
  "ext_calls (Free q # es) = ext_calls es"
  "ext_calls (Findstore ser f # es) = ext_calls es"
  "ext_calls (Addstore ser # es) = ext_calls es"
  "ext_calls (Delay d # es) = ext_calls es"
  "ext_calls (Printf msg # es) = ext_calls es"
  by (simp_all add: ext_calls_def)

lemma ext_results_map_Malloc [simp]: "ext_results (map Malloc xs) = []"
  by (induction xs) auto

lemma ext_results_map_Free [simp]: "ext_results (map Free xs) = []"
  by (induction xs) auto

lemma ext_calls_map_Malloc [simp]: "ext_calls (map Malloc xs) = []"
  by (simp add: ext_calls_def)

lemma ext_calls_map_Free [simp]: "ext_calls (map Free xs) = []"
  by (simp add: ext_calls_def)

lemma dev_ext: "dev (snd (ext env call s)) = fst (snd (env call (dev s) (world s)))"
  by (simp add: ext_def split: prod.splits)

lemma fst_ext: "fst (ext env call s) = fst (env call (dev s) (world s))"
  by (simp add: ext_def split: prod.splits)

lemma world_ext: "world (snd (ext env call s)) = snd (snd (env call (dev s) (world s)))"
  by (simp add: ext_def split: prod.splits)

lemma ext_leaves: "leaves env call f \<Longrightarrow> f (dev (snd (ext env call s))) = f (dev s)"
  by (simp add: leaves_def dev_ext)

lemmas ex_defs = ex_config_def ex_env_def ex_env_setactive_def ex_kb_def ex_kb_rgb_def
  ex_kb_nrgb_def ex_sys_stored_def ex_kb_lost_def
  ex_sys_def ex_stored_def ex_messages_def res_ok_def res_fwfail_def res_fwfail_once_def
  res_reset_5_def res_reset_gone_def res_hwfail_def res_stuck_def res_stuck_late_def
  zero_usbdevice_def zero_usbprofile_def

lemmas run_defs = ext_def emit_def emits_def upd_def Let_def HAS_FEATURES_def
  getusbmode_def getusbmode_1_2_def set_currentmode_0_def

subsection \<open>The command queue\<close>

lemma c_int_id: "- 2147483648 \<le> x \<Longrightarrow> x \<le> INT_MAX \<Longrightarrow> c_int x = x"
  by (simp add: c_int_def)

lemma memcpy_slot_length: "memcpy_slot q idx m = Some q' \<Longrightarrow> length q' = length q"
  by (auto simp: memcpy_slot_def split: if_splits)

lemma memcpy_slot_ok:
  "0 \<le> idx \<Longrightarrow> nat idx < length q \<Longrightarrow> None \<notin> set q \<Longrightarrow>
   memcpy_slot q idx m = Some (q[nat idx := Some m])"
  by (auto simp: memcpy_slot_def in_set_conv_nth)

text \<open>
  The copy loop on an allocated queue with room: it ends, message \<open>i + j\<close> lands in slot
  \<open>qc + i + j\<close>, and every other slot keeps its bytes.
\<close>

lemma copy_messages_ok:
  "None \<notin> set q \<Longrightarrow> 0 \<le> qc \<Longrightarrow> nat qc + i + k \<le> length q \<Longrightarrow>
   qc + int i + int k \<le> INT_MAX \<Longrightarrow>
   \<exists>q'. copy_messages c m qc i k q = Some q' \<and> length q' = length q \<and> None \<notin> set q' \<and>
        (\<forall>j<k. q' ! (nat qc + i + j) = Some (message_at c m (i + j))) \<and>
        (\<forall>j<length q. j < nat qc + i \<or> nat qc + i + k \<le> j \<longrightarrow> q' ! j = q ! j)"
proof (induction k arbitrary: i q)
  case 0
  then show ?case by simp
next
  case (Suc k)
  let ?q1 = "q[nat (qc + int i) := Some (message_at c m i)]"
  have idx: "nat (qc + int i) = nat qc + i" using Suc.prems by simp
  have ci: "c_int (qc + int i) = qc + int i" using Suc.prems by (simp add: c_int_id)
  have step: "memcpy_slot q (c_int (qc + int i)) (message_at c m i) = Some ?q1"
    unfolding ci using Suc.prems by (intro memcpy_slot_ok) auto
  have n1: "None \<notin> set ?q1"
    using Suc.prems(1) by (auto dest!: subsetD [OF set_update_subset_insert])
  from Suc.IH [of ?q1 "Suc i"] n1 Suc.prems
  obtain q' where q': "copy_messages c m qc (Suc i) k ?q1 = Some q'" "length q' = length q"
      "None \<notin> set q'"
      "\<forall>j<k. q' ! (nat qc + Suc i + j) = Some (message_at c m (Suc i + j))"
      "\<forall>j<length q. j < nat qc + Suc i \<or> nat qc + Suc i + k \<le> j \<longrightarrow> q' ! j = ?q1 ! j"
    by auto
  have a: "\<forall>j<Suc k. q' ! (nat qc + i + j) = Some (message_at c m (i + j))"
  proof (intro allI impI)
    fix j assume j: "j < Suc k"
    show "q' ! (nat qc + i + j) = Some (message_at c m (i + j))"
    proof (cases j)
      case 0
      have "q' ! (nat qc + i) = ?q1 ! (nat qc + i)" using q'(5) Suc.prems by simp
      also have "\<dots> = Some (message_at c m i)" using Suc.prems idx by simp
      finally show ?thesis using 0 by simp
    next
      case (Suc j')
      then show ?thesis using q'(4) j by simp
    qed
  qed
  have b: "\<forall>j<length q. j < nat qc + i \<or> nat qc + i + Suc k \<le> j \<longrightarrow> q' ! j = q ! j"
    using q'(5) idx by auto
  show ?case using step q' a b by simp
qed

text \<open>The copy loop stops with no result at a round whose slot is outside the array.\<close>

lemma copy_messages_outside:
  "j < k \<Longrightarrow>
   \<not> (0 \<le> c_int (qc + int (i + j)) \<and> nat (c_int (qc + int (i + j))) < length q) \<Longrightarrow>
   copy_messages c m qc i k q = None"
proof (induction k arbitrary: i j q)
  case 0
  then show ?case by simp
next
  case (Suc k)
  show ?case
  proof (cases "memcpy_slot q (c_int (qc + int i)) (message_at c m i)")
    case None
    then show ?thesis by simp
  next
    case (Some q')
    then have len: "length q' = length q" by (rule memcpy_slot_length)
    from Some have "0 \<le> c_int (qc + int i) \<and> nat (c_int (qc + int i)) < length q"
      by (auto simp: memcpy_slot_def split: if_splits)
    with Suc.prems(2) obtain j' where j: "j = Suc j'" by (cases j) auto
    with Suc.prems have "j' < k"
      "\<not> (0 \<le> c_int (qc + int (Suc i + j')) \<and> nat (c_int (qc + int (Suc i + j'))) < length q')"
      by (simp_all add: len)
    from Suc.IH [OF this] Some show ?thesis by simp
  qed
qed

lemma usbqueue_guarded:
  "handle kb = 0 \<or> \<not> HAS_FEATURES kb (FEAT_RGB c) \<Longrightarrow> usbqueue c kb m n = Some (0, kb)"
  by (simp add: usbqueue_def)

lemma usbqueue_queuecount_le:
  "queuecount kb \<le> int (QUEUE_LEN c) \<Longrightarrow> usbqueue c kb m n = Some (r, kb') \<Longrightarrow>
   queuecount kb' \<le> int (QUEUE_LEN c)"
  by (auto simp: usbqueue_def split: if_splits option.splits)

lemma usbqueue_all_queuecount_le:
  "queuecount kb \<le> int (QUEUE_LEN c) \<Longrightarrow> usbqueue_all c kb calls = Some kb' \<Longrightarrow>
   queuecount kb' \<le> int (QUEUE_LEN c)"
proof (induction calls arbitrary: kb)
  case Nil
  then show ?case by simp
next
  case (Cons a calls)
  obtain m n where a: "a = (m, n)" by (cases a)
  from Cons.prems obtain r kb1 where u: "usbqueue c kb m n = Some (r, kb1)"
    and rest: "usbqueue_all c kb1 calls = Some kb'"
    by (auto simp: a split: option.splits)
  from usbqueue_queuecount_le [OF Cons.prems(1) u] Cons.IH rest show ?case by blast
qed

text \<open>An enqueue that passes both checks, on a queue in order.\<close>

lemma usbqueue_copies:
  assumes ok: "queue_ok c kb" and n: "0 \<le> n"
    and live: "handle kb \<noteq> 0" "HAS_FEATURES kb (FEAT_RGB c)"
    and fits: "queuecount kb + n \<le> int (QUEUE_LEN c)"
    and rep: "queuecount kb + n \<le> INT_MAX"
  shows "\<exists>q'. usbqueue c kb m n = Some (0, kb\<lparr>queue := q', queuecount := queuecount kb + n\<rparr>) \<and>
              length q' = QUEUE_LEN c \<and> None \<notin> set q' \<and>
              (\<forall>j<nat n. q' ! (nat (queuecount kb) + j) = Some (message_at c m j)) \<and>
              (\<forall>j<QUEUE_LEN c. j < nat (queuecount kb) \<or> nat (queuecount kb) + nat n \<le> j
                                \<longrightarrow> q' ! j = queue kb ! j)"
proof -
  from ok n fits have room: "nat (queuecount kb) + 0 + nat n \<le> length (queue kb)"
    unfolding queue_ok_def by linarith
  from ok have q: "None \<notin> set (queue kb)" "0 \<le> queuecount kb"
    "length (queue kb) = QUEUE_LEN c"
    by (simp_all add: queue_ok_def)
  from q(2) n rep have sum: "c_int (queuecount kb + n) = queuecount kb + n"
    and r: "queuecount kb + int 0 + int (nat n) \<le> INT_MAX"
    by (simp_all add: c_int_id)
  from copy_messages_ok [OF q(1,2) room r, of c m] q(3)
  obtain q' where "copy_messages c m (queuecount kb) 0 (nat n) (queue kb) = Some q'"
    "length q' = QUEUE_LEN c" "None \<notin> set q'"
    "\<forall>j<nat n. q' ! (nat (queuecount kb) + j) = Some (message_at c m j)"
    "\<forall>j<QUEUE_LEN c. j < nat (queuecount kb) \<or> nat (queuecount kb) + nat n \<le> j
                      \<longrightarrow> q' ! j = queue kb ! j"
    by auto
  then show ?thesis using live fits by (auto simp: usbqueue_def sum)
qed

lemma usbqueue_ok:
  assumes "queue_ok c kb" "0 \<le> n" and bound: "int (QUEUE_LEN c) + n \<le> INT_MAX"
  shows "\<exists>r kb'. usbqueue c kb m n = Some (r, kb') \<and> queue_ok c kb'"
proof (cases "handle kb = 0 \<or> \<not> HAS_FEATURES kb (FEAT_RGB c)")
  case True
  then show ?thesis using assms by (auto simp: usbqueue_def)
next
  case live: False
  from assms have rep: "queuecount kb + n \<le> INT_MAX" and "0 \<le> queuecount kb + n"
    by (simp_all add: queue_ok_def)
  then have sum: "c_int (queuecount kb + n) = queuecount kb + n"
    by (simp add: c_int_id)
  show ?thesis
  proof (cases "queuecount kb + n > int (QUEUE_LEN c)")
    case True
    then show ?thesis using assms live by (auto simp: usbqueue_def sum)
  next
    case False
    with usbqueue_copies [OF assms(1,2) _ _ _ rep, of m] live
    obtain q' where "usbqueue c kb m n =
        Some (0, kb\<lparr>queue := q', queuecount := queuecount kb + n\<rparr>)"
      "length q' = QUEUE_LEN c" "None \<notin> set q'"
      by auto
    then show ?thesis using assms False by (simp add: queue_ok_def)
  qed
qed

lemma usbqueue_all_ok:
  "queue_ok c kb \<Longrightarrow> \<forall>(m, n)\<in>set calls. 0 \<le> n \<and> int (QUEUE_LEN c) + n \<le> INT_MAX \<Longrightarrow>
   \<exists>kb'. usbqueue_all c kb calls = Some kb' \<and> queue_ok c kb'"
proof (induction calls arbitrary: kb)
  case Nil
  then show ?case by simp
next
  case (Cons a calls)
  obtain m n where a: "a = (m, n)" by (cases a)
  with Cons.prems have "0 \<le> n" "int (QUEUE_LEN c) + n \<le> INT_MAX" by simp_all
  from usbqueue_ok [OF Cons.prems(1) this, of m]
  obtain r kb1 where u: "usbqueue c kb m n = Some (r, kb1)" and ok: "queue_ok c kb1" by blast
  from Cons.IH [OF ok] Cons.prems(2) obtain kb' where
    "usbqueue_all c kb1 calls = Some kb'" "queue_ok c kb'" by auto
  then show ?case using u a by simp
qed

lemma usbqueue_all_guarded:
  "handle kb = 0 \<or> \<not> HAS_FEATURES kb (FEAT_RGB c) \<Longrightarrow> usbqueue_all c kb calls = Some kb"
  by (induction calls) (auto simp: usbqueue_guarded)

text \<open>
  C3 (as the code has it). On a session whose transport handle is absent, \<open>usbqueue\<close>
  returns 0, the value it returns for a successful enqueue, not the rejection \<open>- 1\<close>;
  the record, and so the queue and \<open>queuecount\<close>, is unchanged.
\<close>

theorem usbqueue_no_handle:
  "handle kb = 0 \<Longrightarrow> usbqueue c kb messages count = Some (0, kb)"
  by (simp add: usbqueue_def)

theorem usbqueue_no_handle_witness:
  "handle (zero_usbdevice ex_config) = 0 \<and>
   usbqueue ex_config (zero_usbdevice ex_config) ex_messages 1 =
     Some (0, zero_usbdevice ex_config)"
  using usbqueue_no_handle [of "zero_usbdevice ex_config" ex_config ex_messages 1]
  by (simp add: zero_usbdevice_def)

text \<open>
  C3 as stated fails: the session is RGB-capable with its queue allocated and has lost
  its handle; the call is not rejected, it returns 0.
\<close>

theorem usbqueue_no_handle_counterexample:
  "handle ex_kb_lost = 0 \<and> usbqueue ex_config ex_kb_lost ex_messages 1 = Some (0, ex_kb_lost)"
  by (simp add: usbqueue_def ex_kb_lost_def)

text \<open>
  A count that takes the sum past \<open>INT_MAX\<close>: the wrapped sum passes the capacity check
  and the copy loop leaves the array, here in its fourth round.
\<close>

lemma usbqueue_past_INT_MAX:
  "usbqueue ex_config (ex_kb_rgb\<lparr>queuecount := 1\<rparr>) ex_messages INT_MAX = None"
proof -
  have "copy_messages ex_config ex_messages 1 0 (nat INT_MAX) (queue ex_kb_rgb) = None"
    by (rule copy_messages_outside [where j = 3]) (simp_all add: c_int_def ex_defs)
  then show ?thesis
    by (simp add: usbqueue_def c_int_def HAS_FEATURES_def ex_defs)
qed

text \<open>
  C5 (as the code has it). On a session with a transport handle and the RGB capability,
  an enqueue whose count added to \<open>queuecount\<close> exceeds \<open>QUEUE_LEN\<close>, the sum being a
  value of the type \<open>int\<close>, returns \<open>- 1\<close> and leaves the record unchanged. Whatever the
  session and the counts, \<open>queuecount\<close> stays at most \<open>QUEUE_LEN\<close> through any sequence of
  enqueue calls, and on a queue in order every sequence of calls whose counts keep the
  sums within \<open>int\<close> runs to its end. An enqueue that fits returns 0, copies message \<open>j\<close>
  to slot \<open>queuecount + j\<close>, touches no other slot and adds the count to \<open>queuecount\<close>.
\<close>

theorem usbqueue_all_or_nothing:
  "(handle kb \<noteq> 0 \<and> HAS_FEATURES kb (FEAT_RGB c) \<and>
    queuecount kb + count > int (QUEUE_LEN c) \<and> queuecount kb + count \<le> INT_MAX
      \<longrightarrow> usbqueue c kb messages count = Some (- 1, kb)) \<and>
   (queuecount kb \<le> int (QUEUE_LEN c) \<and> usbqueue_all c kb calls = Some kb'
      \<longrightarrow> queuecount kb' \<le> int (QUEUE_LEN c)) \<and>
   (queue_ok c kb \<and> (\<forall>(m, n)\<in>set calls. 0 \<le> n \<and> int (QUEUE_LEN c) + n \<le> INT_MAX)
      \<longrightarrow> (\<exists>kb'. usbqueue_all c kb calls = Some kb' \<and> queue_ok c kb')) \<and>
   (handle kb \<noteq> 0 \<and> HAS_FEATURES kb (FEAT_RGB c) \<and> queue_ok c kb \<and> 0 \<le> count \<and>
    queuecount kb + count \<le> int (QUEUE_LEN c) \<and> queuecount kb + count \<le> INT_MAX
      \<longrightarrow> (\<exists>q'. usbqueue c kb messages count =
                   Some (0, kb\<lparr>queue := q', queuecount := queuecount kb + count\<rparr>) \<and>
                (\<forall>j<nat count.
                   q' ! (nat (queuecount kb) + j) = Some (message_at c messages j)) \<and>
                (\<forall>j<QUEUE_LEN c.
                   j < nat (queuecount kb) \<or> nat (queuecount kb) + nat count \<le> j
                   \<longrightarrow> q' ! j = queue kb ! j)))"
proof (intro conjI impI)
  assume "handle kb \<noteq> 0 \<and> HAS_FEATURES kb (FEAT_RGB c) \<and>
          queuecount kb + count > int (QUEUE_LEN c) \<and> queuecount kb + count \<le> INT_MAX"
  then show "usbqueue c kb messages count = Some (- 1, kb)"
    by (simp add: usbqueue_def c_int_id)
next
  assume "queuecount kb \<le> int (QUEUE_LEN c) \<and> usbqueue_all c kb calls = Some kb'"
  then show "queuecount kb' \<le> int (QUEUE_LEN c)"
    using usbqueue_all_queuecount_le by blast
next
  assume "queue_ok c kb \<and>
          (\<forall>(m, n)\<in>set calls. 0 \<le> n \<and> int (QUEUE_LEN c) + n \<le> INT_MAX)"
  then show "\<exists>kb'. usbqueue_all c kb calls = Some kb' \<and> queue_ok c kb'"
    using usbqueue_all_ok by blast
next
  assume a: "handle kb \<noteq> 0 \<and> HAS_FEATURES kb (FEAT_RGB c) \<and> queue_ok c kb \<and> 0 \<le> count \<and>
             queuecount kb + count \<le> int (QUEUE_LEN c) \<and> queuecount kb + count \<le> INT_MAX"
  then have "queue_ok c kb" "0 \<le> count" "handle kb \<noteq> 0" "HAS_FEATURES kb (FEAT_RGB c)"
    "queuecount kb + count \<le> int (QUEUE_LEN c)" "queuecount kb + count \<le> INT_MAX"
    by simp_all
  from usbqueue_copies [OF this, of messages]
  show "\<exists>q'. usbqueue c kb messages count =
               Some (0, kb\<lparr>queue := q', queuecount := queuecount kb + count\<rparr>) \<and>
             (\<forall>j<nat count. q' ! (nat (queuecount kb) + j) = Some (message_at c messages j)) \<and>
             (\<forall>j<QUEUE_LEN c. j < nat (queuecount kb) \<or> nat (queuecount kb) + nat count \<le> j
                               \<longrightarrow> q' ! j = queue kb ! j)"
    by blast
qed

theorem usbqueue_all_or_nothing_witness:
  "usbqueue ex_config ex_kb_rgb ex_messages 5 = Some (- 1, ex_kb_rgb) \<and>
   (\<exists>kb'. usbqueue_all ex_config ex_kb_rgb [(ex_messages, 2), (ex_messages, 1)] = Some kb' \<and>
          queuecount kb' \<le> 4) \<and>
   (\<exists>q'. usbqueue ex_config ex_kb_rgb ex_messages 2 =
           Some (0, ex_kb_rgb\<lparr>queue := q', queuecount := 2\<rparr>) \<and>
         q' ! 0 = Some [0, 1] \<and> q' ! 1 = Some [2, 3] \<and> q' ! 2 = Some [0, 0])"
proof -
  let ?calls = "[(ex_messages, 2), (ex_messages, 1 :: int)]"
  have live: "handle ex_kb_rgb \<noteq> 0" "HAS_FEATURES ex_kb_rgb (FEAT_RGB ex_config)"
    and ok: "queue_ok ex_config ex_kb_rgb"
    and qc: "queuecount ex_kb_rgb = 0" and len: "QUEUE_LEN ex_config = 4"
    and q2: "queue ex_kb_rgb ! 2 = Some [0, 0]"
    by (simp_all add: ex_defs HAS_FEATURES_def queue_ok_def)
  have m: "message_at ex_config ex_messages 0 = [0, 1]"
    "message_at ex_config ex_messages 1 = [2, 3]"
    by (simp_all add: message_at_def ex_config_def ex_messages_def upt_rec)
  have c1: "usbqueue ex_config ex_kb_rgb ex_messages 5 = Some (- 1, ex_kb_rgb)"
    using usbqueue_all_or_nothing [of ex_kb_rgb ex_config 5 ex_messages "[]" ex_kb_rgb]
      live qc len by simp
  obtain kb' where kb': "usbqueue_all ex_config ex_kb_rgb ?calls = Some kb'"
    using usbqueue_all_or_nothing [of ex_kb_rgb ex_config 0 ex_messages ?calls ex_kb_rgb]
      ok len by auto
  have c2: "queuecount kb' \<le> 4"
    using usbqueue_all_or_nothing [of ex_kb_rgb ex_config 0 ex_messages ?calls kb'] kb' qc len
    by simp
  obtain q' where q': "usbqueue ex_config ex_kb_rgb ex_messages 2 =
        Some (0, ex_kb_rgb\<lparr>queue := q', queuecount := queuecount ex_kb_rgb + 2\<rparr>)"
      "\<forall>j<nat 2. q' ! (nat (queuecount ex_kb_rgb) + j) =
                    Some (message_at ex_config ex_messages j)"
      "\<forall>j<QUEUE_LEN ex_config.
         j < nat (queuecount ex_kb_rgb) \<or> nat (queuecount ex_kb_rgb) + nat 2 \<le> j
         \<longrightarrow> q' ! j = queue ex_kb_rgb ! j"
    using usbqueue_all_or_nothing [of ex_kb_rgb ex_config 2 ex_messages "[]" ex_kb_rgb]
      live ok qc len by auto
  from q'(2) have "q' ! 0 = Some [0, 1]" "q' ! 1 = Some [2, 3]"
    using m qc by (auto dest: spec [where x = 0] spec [where x = 1])
  moreover from q'(3) have "q' ! 2 = Some [0, 0]"
    using qc len q2 by (auto dest: spec [where x = 2])
  ultimately show ?thesis using c1 kb' c2 q'(1) qc by auto
qed

text \<open>
  C5 as stated fails: the session is RGB-capable, its queue is allocated and empty, and
  it has lost its transport handle. Five messages do not fit the four slots, and the call
  returns 0, not the rejection.
\<close>

theorem usbqueue_all_or_nothing_counterexample:
  "HAS_FEATURES ex_kb_lost (FEAT_RGB ex_config) \<and> handle ex_kb_lost = 0 \<and>
   queuecount ex_kb_lost + 5 > int (QUEUE_LEN ex_config) \<and>
   usbqueue ex_config ex_kb_lost ex_messages 5 = Some (0, ex_kb_lost)"
  by (simp add: usbqueue_def HAS_FEATURES_def ex_defs)

subsection \<open>Session setup\<close>

lemma not_Malloc_image [simp]:
  "Ext call r kb \<notin> Malloc ` A" "Findstore ser f \<notin> Malloc ` A" "Addstore ser \<notin> Malloc ` A"
  "Mutex_init l \<notin> Malloc ` A" "Mutex_lock l \<notin> Malloc ` A" "Mutex_unlock l \<notin> Malloc ` A"
  "Mutex_destroy l \<notin> Malloc ` A" "Free q \<notin> Malloc ` A" "Delay d \<notin> Malloc ` A"
  "Printf msg \<notin> Malloc ` A"
  by auto

text \<open>The three blocks \<open>setupusb\<close> ends in: result, events and record of each.\<close>

lemma setupusb_nrgb_run:
  "fst (setupusb_nrgb c env s) = 0"
  "\<exists>r1 kb1 r2 kb2. trace (snd (setupusb_nrgb c env s)) =
      trace s @ [Ext (Nk95cmd (NK95_HWOFF c)) r1 kb1, Ext Writefwnode r2 kb2]"
  "pollrate (dev (snd (setupusb_nrgb c env s))) = - 1"
  by (simp_all add: setupusb_nrgb_def Let_def set_currentmode_0_def getusbmode_1_2_def
        getusbmode_def)

lemma setupusb_nrgb_frame:
  assumes "leaves env (Nk95cmd (NK95_HWOFF c)) f" "leaves env Writefwnode f"
    and "\<And>kb x. f (kb\<lparr>active := x\<rparr>) = f kb" "\<And>kb x. f (kb\<lparr>pollrate := x\<rparr>) = f kb"
    and "\<And>kb x. f (kb\<lparr>profile := x\<rparr>) = f kb"
  shows "f (dev (snd (ext env Writefwnode
                       (upd (\<lambda>kb. kb\<lparr>active := 1\<rparr>) (snd (ext env (Nk95cmd (NK95_HWOFF c)) s))))))
         = f (dev s)"
    and "f (dev (snd (setupusb_nrgb c env s))) = f (dev s)"
  using assms
  by (simp_all add: setupusb_nrgb_def Let_def set_currentmode_0_def getusbmode_1_2_def
        getusbmode_def ext_leaves)

lemma setupusb_nrgb_modes:
  assumes "model (dev (snd (ext env Writefwnode
             (upd (\<lambda>kb. kb\<lparr>active := 1\<rparr>) (snd (ext env (Nk95cmd (NK95_HWOFF c)) s)))))) = 95"
  shows "3 \<le> modecount (profile (dev (snd (setupusb_nrgb c env s))))"
  using assms
  by (simp add: setupusb_nrgb_def Let_def set_currentmode_0_def getusbmode_1_2_def
        getusbmode_def)

lemma setupusb_fwupdate_run:
  "fst (setupusb_fwupdate c s) = 0"
  "\<exists>msg. trace (snd (setupusb_fwupdate c s)) = trace s @ [Printf msg]"
  "features (dev (snd (setupusb_fwupdate c s))) = FEAT_RGB c OR FEAT_FWVERSION c OR FEAT_FWUPDATE c"
  "active (dev (snd (setupusb_fwupdate c s))) = 1"
  "store (snd (setupusb_fwupdate c s)) = store s"
  by (simp_all add: setupusb_fwupdate_def Let_def set_currentmode_0_def getusbmode_1_2_def
        getusbmode_def)

lemma setupusb_restore_result:
  "fst (setupusb_restore env fail s) = 0 \<or> fst (setupusb_restore env fail s) = - 2"
  "fail \<Longrightarrow> fst (setupusb_restore env fail s) = - 2"
  by (simp_all add: setupusb_restore_def Let_def case_prod_beta split: option.splits)

lemma setupusb_restore_trace:
  "\<exists>evs. trace (snd (setupusb_restore env fail s)) =
           trace s @ Delay Long #
             Findstore (serial (profile (dev s))) (store s (serial (profile (dev s)))) # evs \<and>
         (fail \<longrightarrow> evs = []) \<and>
         (\<not> fail \<longrightarrow> (\<exists>m r kb. (m = 0 \<longleftrightarrow> store s (serial (profile (dev s))) \<noteq> None) \<and>
                         (m = 1 \<longleftrightarrow> store s (serial (profile (dev s))) = None) \<and>
                         (r \<noteq> 0 \<longleftrightarrow> fst (setupusb_restore env fail s) = - 2) \<and>
                         evs = Ext (Hwloadprofile m) r kb #
                                 (if r \<noteq> 0 then [] else [Delay Short])))"
  by (auto simp: setupusb_restore_def Let_def case_prod_beta split: option.splits)

lemma setupusb_restore_fatal:
  assumes "fst (setupusb_restore env fail s) = - 2"
  shows "\<exists>evs. trace (snd (setupusb_restore env fail s)) =
           trace s @ Delay Long #
             Findstore (serial (profile (dev s))) (store s (serial (profile (dev s)))) # evs \<and>
         (fail \<longrightarrow> evs = []) \<and>
         (\<not> fail \<longrightarrow> (\<exists>m r kb. (m = 0 \<longleftrightarrow> store s (serial (profile (dev s))) \<noteq> None) \<and>
                                 evs = [Ext (Hwloadprofile m) r kb]))"
  using setupusb_restore_trace [of env fail s] assms
  apply (elim exE conjE)
  subgoal for evs
    by (rule exI [of _ evs], cases fail) auto
  done

text \<open>
  The restore block when the store has a profile for the serial: the record is
  overwritten with it; with the firmware query failed the block returns at once, and
  otherwise the record goes to \<open>hwloadprofile(kb, 0)\<close>.
\<close>

lemma setupusb_restore_found:
  assumes "store s (serial (profile (dev s))) = Some p"
  shows "fail \<Longrightarrow> dev (snd (setupusb_restore env fail s)) = overwritten (dev s) p"
    and "\<not> fail \<Longrightarrow> dev (snd (setupusb_restore env fail s)) =
           fst (snd (env (Hwloadprofile 0) (overwritten (dev s) p) (world s)))"
  using assms
  by (auto simp: setupusb_restore_def overwritten_def Let_def case_prod_beta dev_ext
        getusbmode_1_2_def split: if_splits)

text \<open>
  \<open>setupusb\<close> along its path: the states after the prologue, \<open>makedevpath\<close>, \<open>inputopen\<close>,
  \<open>updateindicators\<close>, the queue allocation and \<open>getfwversion\<close>.
\<close>

lemma setupusb_path:
  fixes c :: config and env :: "'w env" and s :: "'w sys" and fm vnd prd :: int
  defines "s0 \<equiv> emits [Mutex_init Mutex, Mutex_init Keymutex, Mutex_lock Mutex]
                   (upd (\<lambda>kb. setupusb_resolve c fm kb vnd prd) s)"
  defines "s1 \<equiv> snd (ext env Makedevpath s0)"
  defines "s2 \<equiv> snd (ext env Inputopen s1)"
  defines "s3 \<equiv> snd (ext env (Updateindicators 1) s2)"
  defines "s5 \<equiv> snd (ext env Getfwversion (create_queue c s3))"
  shows "setupusb c env fm s vnd prd =
     (if fst (ext env Makedevpath s0) \<noteq> 0
      then (- 1, emits [Mutex_unlock Mutex, Mutex_destroy Mutex, Mutex_destroy Keymutex] s1)
      else if fst (ext env Inputopen s1) = 0
      then (- 1, emits [Mutex_unlock Mutex, Mutex_destroy Mutex, Mutex_destroy Keymutex]
                   (snd (ext env Rmdevpath s2)))
      else if \<not> HAS_FEATURES (dev s3) (FEAT_RGB c) then setupusb_nrgb c env s3
      else if fst (ext env Getfwversion (create_queue c s3)) = 0 \<and> NEEDS_FW_UPDATE c (dev s5)
      then setupusb_fwupdate c s5
      else setupusb_restore env (fst (ext env Getfwversion (create_queue c s3)) \<noteq> 0) s5)"
    and "trace s3 = trace s @ [Mutex_init Mutex, Mutex_init Keymutex, Mutex_lock Mutex,
            Ext Makedevpath (fst (ext env Makedevpath s0)) (dev s1),
            Ext Inputopen (fst (ext env Inputopen s1)) (dev s2),
            Ext (Updateindicators 1) (fst (ext env (Updateindicators 1) s2)) (dev s3)]"
    and "trace s5 = trace s3 @ map Malloc [0 ..< QUEUE_LEN c] @
            [Ext Getfwversion (fst (ext env Getfwversion (create_queue c s3))) (dev s5)]"
    and "store s5 = store s"
  by (simp_all add: setupusb_def Let_def case_prod_beta s0_def s1_def s2_def s3_def s5_def
        create_queue_def)

text \<open>
  C10. Whenever \<open>setupusb\<close> returns \<open>- 2\<close>, nothing has been unwound: the control path
  was made and the input surface opened and neither was removed or closed, every queue
  buffer was allocated and none freed, the device lock was taken and neither released nor
  destroyed, and the transport handle was not closed. If \<open>findstore\<close> found a profile
  \<open>p\<close>, it was looked up under the serial of the record, and the record that
  \<open>getfwversion\<close> left has been overwritten with \<open>p\<close>: after a failed query that is the
  record returned, and otherwise it is the record handed to the failing
  \<open>hwloadprofile(kb, 0)\<close>.
\<close>

theorem setupusb_sync_fatal:
  "case setupusb c env fm (s\<lparr>trace := []\<rparr>) vnd prd of (r, s') \<Rightarrow>
     r = - 2 \<longrightarrow>
       (Makedevpath, 0) \<in> set (ext_results (trace s')) \<and>
       (\<exists>rc. rc \<noteq> 0 \<and> (Inputopen, rc) \<in> set (ext_results (trace s'))) \<and>
       Rmdevpath \<notin> set (ext_calls (trace s')) \<and>
       Inputclose \<notin> set (ext_calls (trace s')) \<and>
       Closehandle \<notin> set (ext_calls (trace s')) \<and>
       (\<forall>q<QUEUE_LEN c. Malloc q \<in> set (trace s')) \<and>
       (\<forall>q. Free q \<notin> set (trace s')) \<and>
       Mutex_lock Mutex \<in> set (trace s') \<and>
       Mutex_unlock Mutex \<notin> set (trace s') \<and>
       Mutex_destroy Mutex \<notin> set (trace s') \<and>
       (\<forall>rc kb ser p.
          Ext Getfwversion rc kb \<in> set (trace s') \<and> Findstore ser (Some p) \<in> set (trace s')
          \<longrightarrow> ser = serial (profile kb) \<and>
              (if rc \<noteq> 0 then dev s' = overwritten kb p
               else Hwloadprofile 0 \<in> set (ext_calls (trace s')) \<and>
                    (\<exists>w. dev s' = fst (snd (env (Hwloadprofile 0) (overwritten kb p) w)))))"
proof (cases "fst (setupusb c env fm (s\<lparr>trace := []\<rparr>) vnd prd) = - 2")
  case False
  then show ?thesis by (simp add: case_prod_beta)
next
  case fatal: True
  let ?s = "s\<lparr>trace := []\<rparr>"
  define s0 where "s0 = emits [Mutex_init Mutex, Mutex_init Keymutex, Mutex_lock Mutex]
                          (upd (\<lambda>kb. setupusb_resolve c fm kb vnd prd) ?s)"
  define s1 where "s1 = snd (ext env Makedevpath s0)"
  define s2 where "s2 = snd (ext env Inputopen s1)"
  define s3 where "s3 = snd (ext env (Updateindicators 1) s2)"
  define s5 where "s5 = snd (ext env Getfwversion (create_queue c s3))"
  define rc where "rc = fst (ext env Getfwversion (create_queue c s3))"
  note path = setupusb_path [where c = c and env = env and s = ?s and fm = fm and vnd = vnd and prd = prd, folded s0_def s1_def s2_def s3_def s5_def
      rc_def]
  from fatal path(1) have mk: "fst (ext env Makedevpath s0) = 0"
    and io: "fst (ext env Inputopen s1) \<noteq> 0"
    and run: "setupusb c env fm ?s vnd prd = setupusb_restore env (rc \<noteq> 0) s5"
    by (auto simp: setupusb_nrgb_run(1) setupusb_fwupdate_run(1) split: if_splits)
  let ?r = "setupusb_restore env (rc \<noteq> 0) s5"
  let ?ser = "serial (profile (dev s5))"
  from fatal run have "fst ?r = - 2" by simp
  from setupusb_restore_fatal [OF this] obtain evs where
    tr: "trace (snd ?r) = trace s5 @ Delay Long # Findstore ?ser (store s5 ?ser) # evs"
    and failed: "rc \<noteq> 0 \<longrightarrow> evs = []"
    and queried: "\<not> rc \<noteq> 0 \<longrightarrow> (\<exists>m r kb. (m = 0 \<longleftrightarrow> store s5 ?ser \<noteq> None) \<and>
                                 evs = [Ext (Hwloadprofile m) r kb])"
    by blast
  have shape: "evs = [] \<or> (\<exists>m r kb. evs = [Ext (Hwloadprofile m) r kb])"
    using failed queried by blast
  have tr5: "trace s5 = [Mutex_init Mutex, Mutex_init Keymutex, Mutex_lock Mutex,
      Ext Makedevpath 0 (dev s1), Ext Inputopen (fst (ext env Inputopen s1)) (dev s2),
      Ext (Updateindicators 1) (fst (ext env (Updateindicators 1) s2)) (dev s3)] @
      map Malloc [0 ..< QUEUE_LEN c] @ [Ext Getfwversion rc (dev s5)]"
    using path(2,3) mk by simp
  have found: "dev (snd ?r) = overwritten (dev s5) p"
    if "rc \<noteq> 0" "store s5 ?ser = Some p" for p
    using setupusb_restore_found(1) [OF that(2), of "rc \<noteq> 0" env] that(1) by simp
  have loaded: "dev (snd ?r) = fst (snd (env (Hwloadprofile 0) (overwritten (dev s5) p) (world s5)))"
    if "rc = 0" "store s5 ?ser = Some p" for p
    using setupusb_restore_found(2) [OF that(2), of "rc \<noteq> 0" env] that(1) by simp
  show ?thesis
    unfolding run case_prod_beta
  proof (intro impI conjI allI)
    show "(Makedevpath, 0) \<in> set (ext_results (trace (snd ?r)))"
      by (simp add: tr tr5)
    show "\<exists>rc. rc \<noteq> 0 \<and> (Inputopen, rc) \<in> set (ext_results (trace (snd ?r)))"
      using io by (intro exI [of _ "fst (ext env Inputopen s1)"]) (simp add: tr tr5)
    show "Rmdevpath \<notin> set (ext_calls (trace (snd ?r)))"
      using shape by (auto simp: tr tr5)
    show "Inputclose \<notin> set (ext_calls (trace (snd ?r)))"
      using shape by (auto simp: tr tr5)
    show "Closehandle \<notin> set (ext_calls (trace (snd ?r)))"
      using shape by (auto simp: tr tr5)
    show "Malloc q \<in> set (trace (snd ?r))" if "q < QUEUE_LEN c" for q
      using that by (simp add: tr tr5)
    show "Free q \<notin> set (trace (snd ?r))" for q
      using shape by (auto simp: tr tr5)
    show "Mutex_lock Mutex \<in> set (trace (snd ?r))"
      by (simp add: tr tr5)
    show "Mutex_unlock Mutex \<notin> set (trace (snd ?r))"
      using shape by (auto simp: tr tr5)
    show "Mutex_destroy Mutex \<notin> set (trace (snd ?r))"
      using shape by (auto simp: tr tr5)
  next
    fix rc' kb ser p
    assume a: "Ext Getfwversion rc' kb \<in> set (trace (snd ?r)) \<and>
               Findstore ser (Some p) \<in> set (trace (snd ?r))"
    then have e: "rc' = rc" "kb = dev s5" "ser = ?ser" "store s5 ?ser = Some p"
      using shape by (auto simp: tr tr5)
    show "ser = serial (profile kb)" using e by simp
    show "if rc' \<noteq> 0 then dev (snd ?r) = overwritten kb p
          else Hwloadprofile 0 \<in> set (ext_calls (trace (snd ?r))) \<and>
               (\<exists>w. dev (snd ?r) = fst (snd (env (Hwloadprofile 0) (overwritten kb p) w)))"
    proof (cases "rc = 0")
      case True
      with queried e(4) obtain r kb' where "evs = [Ext (Hwloadprofile 0) r kb']"
        by auto
      then have "Hwloadprofile 0 \<in> set (ext_calls (trace (snd ?r)))"
        unfolding tr by simp
      with loaded [OF True e(4)] True e show ?thesis by auto
    next
      case False
      with found [OF False e(4)] e show ?thesis by simp
    qed
  qed
qed
lemmas setup_defs = setupusb_def setupusb_nrgb_def setupusb_fwupdate_def setupusb_restore_def
  create_queue_def overwritten_def

lemmas eval_defs = setup_defs setupusb_resolve_def show_int_def run_defs ex_defs

theorem setupusb_sync_fatal_witness:
  "fst (setupusb ex_config (ex_env 288 res_hwfail) (- 1) (ex_sys_stored ex_kb) 6940 6929) = - 2 \<and>
   Mutex_lock Mutex \<in>
     set (trace (snd (setupusb ex_config (ex_env 288 res_hwfail) (- 1) (ex_sys_stored ex_kb)
                        6940 6929))) \<and>
   Mutex_unlock Mutex \<notin>
     set (trace (snd (setupusb ex_config (ex_env 288 res_hwfail) (- 1) (ex_sys_stored ex_kb)
                        6940 6929))) \<and>
   ext_results (trace (snd (setupusb ex_config (ex_env 288 res_hwfail) (- 1)
                              (ex_sys_stored ex_kb) 6940 6929))) =
     [(Makedevpath, 0), (Inputopen, 1), (Updateindicators 1, 0), (Getfwversion, 0),
      (Hwloadprofile 0, 1)] \<and>
   profile (dev (snd (setupusb ex_config (ex_env 288 res_hwfail) (- 1) (ex_sys_stored ex_kb)
                        6940 6929))) = ex_stored\<lparr>modecount := 3\<rparr>"
  using setupusb_sync_fatal [where c = ex_config and env = "ex_env 288 res_hwfail"
      and fm = "- 1" and s = "ex_sys_stored ex_kb" and vnd = 6940 and prd = 6929]
  by (simp add: eval_defs)

text \<open>
  C1 (as the code has it). When the firmware query of \<open>setupusb\<close> fails, the run looks
  the serial up in the profile store, does not call \<open>hwloadprofile\<close>, and returns
  \<open>- 2\<close>. When the query succeeds and the record it leaves needs a firmware update, the
  run returns 0 with the features exactly \<open>FEAT_RGB | FEAT_FWVERSION | FEAT_FWUPDATE\<close>
  and the session active, and neither the profile store nor \<open>hwloadprofile\<close> is touched.
\<close>

theorem setupusb_fw_query:
  "case setupusb c env fm (s\<lparr>trace := []\<rparr>) vnd prd of (r, s') \<Rightarrow>
     (\<forall>rc kb. Ext Getfwversion rc kb \<in> set (trace s') \<and> rc \<noteq> 0 \<longrightarrow>
        r = - 2 \<and>
        (\<exists>f. Findstore (serial (profile kb)) f \<in> set (trace s')) \<and>
        (\<forall>m. Hwloadprofile m \<notin> set (ext_calls (trace s')))) \<and>
     (\<forall>kb. Ext Getfwversion 0 kb \<in> set (trace s') \<and> NEEDS_FW_UPDATE c kb \<longrightarrow>
        r = 0 \<and>
        features (dev s') = FEAT_RGB c OR FEAT_FWVERSION c OR FEAT_FWUPDATE c \<and>
        active (dev s') = 1 \<and>
        (\<forall>ser f. Findstore ser f \<notin> set (trace s')) \<and>
        (\<forall>ser. Addstore ser \<notin> set (trace s')) \<and>
        (\<forall>m. Hwloadprofile m \<notin> set (ext_calls (trace s'))) \<and>
        store s' = store s)"
proof -
  let ?s = "s\<lparr>trace := []\<rparr>"
  let ?run = "setupusb c env fm ?s vnd prd"
  define s0 where "s0 = emits [Mutex_init Mutex, Mutex_init Keymutex, Mutex_lock Mutex]
                          (upd (\<lambda>kb. setupusb_resolve c fm kb vnd prd) ?s)"
  define s1 where "s1 = snd (ext env Makedevpath s0)"
  define s2 where "s2 = snd (ext env Inputopen s1)"
  define s3 where "s3 = snd (ext env (Updateindicators 1) s2)"
  define s5 where "s5 = snd (ext env Getfwversion (create_queue c s3))"
  define rc where "rc = fst (ext env Getfwversion (create_queue c s3))"
  note path = setupusb_path [where c = c and env = env and s = ?s and fm = fm and vnd = vnd
      and prd = prd, folded s0_def s1_def s2_def s3_def s5_def rc_def]
  have tr1: "trace s1 = [Mutex_init Mutex, Mutex_init Keymutex, Mutex_lock Mutex,
      Ext Makedevpath (fst (ext env Makedevpath s0)) (dev s1)]"
    by (simp add: s1_def s0_def)
  have tr2: "trace s2 = trace s1 @ [Ext Inputopen (fst (ext env Inputopen s1)) (dev s2)]"
    by (simp add: s2_def)
  have tr3: "trace s3 = trace s2 @
      [Ext (Updateindicators 1) (fst (ext env (Updateindicators 1) s2)) (dev s3)]"
    by (simp add: s3_def)
  have tr5: "trace s5 = trace s3 @ map Malloc [0 ..< QUEUE_LEN c] @ [Ext Getfwversion rc (dev s5)]"
    using path(3) by simp
  consider
      (mk) "fst (ext env Makedevpath s0) \<noteq> 0"
    | (io) "fst (ext env Makedevpath s0) = 0" "fst (ext env Inputopen s1) = 0"
    | (nrgb) "fst (ext env Makedevpath s0) = 0" "fst (ext env Inputopen s1) \<noteq> 0"
        "\<not> HAS_FEATURES (dev s3) (FEAT_RGB c)"
    | (fwupd) "fst (ext env Makedevpath s0) = 0" "fst (ext env Inputopen s1) \<noteq> 0"
        "HAS_FEATURES (dev s3) (FEAT_RGB c)" "rc = 0" "NEEDS_FW_UPDATE c (dev s5)"
    | (restore) "fst (ext env Makedevpath s0) = 0" "fst (ext env Inputopen s1) \<noteq> 0"
        "HAS_FEATURES (dev s3) (FEAT_RGB c)" "\<not> (rc = 0 \<and> NEEDS_FW_UPDATE c (dev s5))"
    by blast
  then show ?thesis
  proof cases
    case mk
    then have "snd ?run = emits [Mutex_unlock Mutex, Mutex_destroy Mutex, Mutex_destroy Keymutex] s1"
      using path(1) by simp
    then show ?thesis by (simp add: case_prod_beta tr1)
  next
    case io
    then have "snd ?run = emits [Mutex_unlock Mutex, Mutex_destroy Mutex, Mutex_destroy Keymutex]
                            (snd (ext env Rmdevpath s2))"
      using path(1) by simp
    then show ?thesis by (simp add: case_prod_beta tr1 tr2)
  next
    case nrgb
    then have "?run = setupusb_nrgb c env s3" using path(1) by simp
    moreover obtain r1 kb1 r2 kb2 where "trace (snd (setupusb_nrgb c env s3)) =
        trace s3 @ [Ext (Nk95cmd (NK95_HWOFF c)) r1 kb1, Ext Writefwnode r2 kb2]"
      using setupusb_nrgb_run(2) by blast
    ultimately show ?thesis by (simp add: case_prod_beta tr1 tr2 tr3)
  next
    case fwupd
    then have run: "?run = setupusb_fwupdate c s5" using path(1) by simp
    obtain msg where tr: "trace (snd (setupusb_fwupdate c s5)) = trace s5 @ [Printf msg]"
      using setupusb_fwupdate_run(2) by blast
    show ?thesis
      unfolding run case_prod_beta
      using fwupd(4) path(4)
      by (simp add: tr tr5 tr3 tr2 tr1 setupusb_fwupdate_run)
  next
    case restore
    define fail where "fail \<longleftrightarrow> rc \<noteq> 0"
    from restore have run: "?run = setupusb_restore env fail s5"
      using path(1) by (auto simp: fail_def)
    let ?r = "setupusb_restore env fail s5"
    let ?ser = "serial (profile (dev s5))"
    from setupusb_restore_trace [of env fail s5] obtain evs where
      tr: "trace (snd ?r) = trace s5 @ Delay Long # Findstore ?ser (store s5 ?ser) # evs"
      and failed: "fail \<longrightarrow> evs = []"
      and queried: "\<not> fail \<longrightarrow> (\<exists>m r kb. evs = Ext (Hwloadprofile m) r kb #
                                           (if r \<noteq> 0 then [] else [Delay Short]))"
      by blast
    have noq: "Ext Getfwversion rc' kb \<notin> set evs" for rc' kb
      using failed queried by (cases fail) (auto split: if_splits)
    show ?thesis
      unfolding run case_prod_beta
    proof (intro conjI allI impI)
      fix rc' kb
      assume "Ext Getfwversion rc' kb \<in> set (trace (snd ?r)) \<and> rc' \<noteq> 0"
      then have e: "rc \<noteq> 0" "kb = dev s5"
        using noq by (auto simp: tr tr5 tr3 tr2 tr1)
      then have evs: "evs = []" using failed by (simp add: fail_def)
      show "fst ?r = - 2" using e(1) by (simp add: setupusb_restore_result(2) fail_def)
      show "\<exists>f. Findstore (serial (profile kb)) f \<in> set (trace (snd ?r))"
        using e(2) by (auto simp: tr)
      show "Hwloadprofile m \<notin> set (ext_calls (trace (snd ?r)))" for m
        by (simp add: evs tr tr5 tr3 tr2 tr1)
    next
      fix kb
      assume "Ext Getfwversion 0 kb \<in> set (trace (snd ?r)) \<and> NEEDS_FW_UPDATE c kb"
      then have "rc = 0 \<and> NEEDS_FW_UPDATE c (dev s5)"
        using noq by (auto simp: tr tr5 tr3 tr2 tr1)
      with restore(4) have False by simp
      then show "fst ?r = 0"
        "features (dev (snd ?r)) = FEAT_RGB c OR FEAT_FWVERSION c OR FEAT_FWUPDATE c"
        "active (dev (snd ?r)) = 1"
        "\<And>ser f. Findstore ser f \<notin> set (trace (snd ?r))"
        "\<And>ser. Addstore ser \<notin> set (trace (snd ?r))"
        "\<And>m. Hwloadprofile m \<notin> set (ext_calls (trace (snd ?r)))"
        "store (snd ?r) = store s"
        by simp_all
    qed
  qed
qed
theorem setupusb_fw_query_witness:
  "fst (setupusb ex_config (ex_env 288 res_fwfail) (- 1) (ex_sys ex_kb) 6940 6929) = - 2 \<and>
   Findstore ''SN1'' None \<in>
     set (trace (snd (setupusb ex_config (ex_env 288 res_fwfail) (- 1) (ex_sys ex_kb)
                        6940 6929))) \<and>
   ext_results (trace (snd (setupusb ex_config (ex_env 288 res_fwfail) (- 1) (ex_sys ex_kb)
                              6940 6929))) =
     [(Makedevpath, 0), (Inputopen, 1), (Updateindicators 1, 0), (Getfwversion, 1)] \<and>
   fst (setupusb ex_config (ex_env 0 res_ok) (- 1) (ex_sys ex_kb) 6940 6929) = 0 \<and>
   features (dev (snd (setupusb ex_config (ex_env 0 res_ok) (- 1) (ex_sys ex_kb) 6940 6929)))
     = 49 \<and>
   ext_results (trace (snd (setupusb ex_config (ex_env 0 res_ok) (- 1) (ex_sys ex_kb)
                              6940 6929))) =
     [(Makedevpath, 0), (Inputopen, 1), (Updateindicators 1, 0), (Getfwversion, 0)]"
  using setupusb_fw_query [where c = ex_config and env = "ex_env 288 res_fwfail" and fm = "- 1"
        and s = "ex_sys ex_kb" and vnd = 6940 and prd = 6929]
    setupusb_fw_query [where c = ex_config and env = "ex_env 0 res_ok" and fm = "- 1"
        and s = "ex_sys ex_kb" and vnd = 6940 and prd = 6929]
  by (simp add: eval_defs)

text \<open>
  C1 as stated fails: a K95 RGB whose firmware query fails. \<open>setupusb\<close> returns \<open>- 2\<close>,
  not success; it has looked the serial up in the store; the features stay the standard
  RGB set 63, not the restricted 49.
\<close>

theorem setupusb_fw_query_counterexample:
  "ext_results (trace (snd (setupusb ex_config (ex_env 288 res_fwfail) (- 1) (ex_sys ex_kb)
                              6940 6929))) =
     [(Makedevpath, 0), (Inputopen, 1), (Updateindicators 1, 0), (Getfwversion, 1)] \<and>
   fst (setupusb ex_config (ex_env 288 res_fwfail) (- 1) (ex_sys ex_kb) 6940 6929) = - 2 \<and>
   Findstore ''SN1'' None \<in>
     set (trace (snd (setupusb ex_config (ex_env 288 res_fwfail) (- 1) (ex_sys ex_kb)
                        6940 6929))) \<and>
   features (dev (snd (setupusb ex_config (ex_env 288 res_fwfail) (- 1) (ex_sys ex_kb)
                         6940 6929))) = 63"
  by (simp add: eval_defs)

text \<open>
  C9. The vendor/product pair resolves to a non-RGB board of the 95 class, path setup
  and input registration succeed, and the calls of the non-RGB path leave \<open>features\<close> and
  \<open>model\<close> alone. Then \<open>setupusb\<close> returns 0 with the RGB bit unset, \<open>pollrate = - 1\<close>,
  no queue buffer allocated, no dequeue made and at least the three modes 0, 1, 2 in the
  profile. On any session without the RGB capability an enqueue call, and any sequence
  of them, returns success and leaves the whole record as it was, so that no report is
  ever queued for the transport; and \<open>revertusb\<close>, the one place of the file that calls
  \<open>usbdequeue\<close>, returns 0 on such a session without a dequeue.
\<close>

theorem setupusb_nrgb_k95:
  assumes mk: "\<forall>kb w. fst (env Makedevpath kb w) = 0"
    and io: "\<forall>kb w. fst (env Inputopen kb w) \<noteq> 0"
    and frame: "\<forall>call\<in>{Makedevpath, Inputopen, Updateindicators 1, Nk95cmd (NK95_HWOFF c),
                         Writefwnode}. leaves env call features \<and> leaves env call model"
    and k95: "model (setupusb_resolve c fm (dev s) vnd prd) = 95"
    and nrgb: "\<not> HAS_FEATURES (setupusb_resolve c fm (dev s) vnd prd) (FEAT_RGB c)"
  shows "(case setupusb c env fm (s\<lparr>trace := []\<rparr>) vnd prd of (r, s') \<Rightarrow>
            r = 0 \<and> \<not> HAS_FEATURES (dev s') (FEAT_RGB c) \<and> pollrate (dev s') = - 1 \<and>
            (\<forall>q. Malloc q \<notin> set (trace s')) \<and> Usbdequeue \<notin> set (ext_calls (trace s')) \<and>
            3 \<le> modecount (profile (dev s'))) \<and>
         (\<not> HAS_FEATURES kb (FEAT_RGB c) \<longrightarrow>
            usbqueue c kb messages count = Some (0, kb) \<and> usbqueue_all c kb calls = Some kb) \<and>
         (\<not> HAS_FEATURES (dev sn) (FEAT_RGB c) \<longrightarrow>
            (\<exists>sn'. revertusb c env fuel (sn\<lparr>trace := []\<rparr>) = Some (0, sn') \<and>
                   Usbdequeue \<notin> set (ext_calls (trace sn'))))"
proof -
  let ?s = "s\<lparr>trace := []\<rparr>"
  let ?run = "setupusb c env fm ?s vnd prd"
  define s0 where "s0 = emits [Mutex_init Mutex, Mutex_init Keymutex, Mutex_lock Mutex]
                          (upd (\<lambda>kb. setupusb_resolve c fm kb vnd prd) ?s)"
  define s1 where "s1 = snd (ext env Makedevpath s0)"
  define s2 where "s2 = snd (ext env Inputopen s1)"
  define s3 where "s3 = snd (ext env (Updateindicators 1) s2)"
  define s5 where "s5 = snd (ext env Getfwversion (create_queue c s3))"
  note path = setupusb_path [where c = c and env = env and s = ?s and fm = fm and vnd = vnd
      and prd = prd, folded s0_def s1_def s2_def s3_def s5_def]
  have l: "leaves env Makedevpath features" "leaves env Inputopen features"
    "leaves env (Updateindicators 1) features" "leaves env (Nk95cmd (NK95_HWOFF c)) features"
    "leaves env Writefwnode features"
    "leaves env Makedevpath model" "leaves env Inputopen model"
    "leaves env (Updateindicators 1) model" "leaves env (Nk95cmd (NK95_HWOFF c)) model"
    "leaves env Writefwnode model"
    using frame by simp_all
  have dev0: "dev s0 = setupusb_resolve c fm (dev s) vnd prd"
    by (simp add: s0_def)
  have f3: "features (dev s3) = features (dev s0)" "model (dev s3) = model (dev s0)"
    by (simp_all add: s3_def s2_def s1_def ext_leaves l)
  have nrgb3: "\<not> HAS_FEATURES (dev s3) (FEAT_RGB c)"
    using nrgb f3(1) dev0 by (simp add: HAS_FEATURES_def)
  have "fst (ext env Makedevpath s0) = 0" "fst (ext env Inputopen s1) \<noteq> 0"
    using mk io by (simp_all add: fst_ext)
  with nrgb3 have run: "?run = setupusb_nrgb c env s3"
    using path(1) by simp
  obtain r1 kb1 r2 kb2 where tr: "trace (snd (setupusb_nrgb c env s3)) =
      trace s3 @ [Ext (Nk95cmd (NK95_HWOFF c)) r1 kb1, Ext Writefwnode r2 kb2]"
    using setupusb_nrgb_run(2) by blast
  have "features (dev (snd (setupusb_nrgb c env s3))) = features (dev s3)"
    by (rule setupusb_nrgb_frame(2)) (simp_all add: l)
  then have a: "\<not> HAS_FEATURES (dev (snd (setupusb_nrgb c env s3))) (FEAT_RGB c)"
    using nrgb3 by (simp add: HAS_FEATURES_def)
  have "model (dev (snd (ext env Writefwnode (upd (\<lambda>kb. kb\<lparr>active := 1\<rparr>)
           (snd (ext env (Nk95cmd (NK95_HWOFF c)) s3)))))) = model (dev s3)"
    by (rule setupusb_nrgb_frame(1)) (simp_all add: l)
  then have b: "3 \<le> modecount (profile (dev (snd (setupusb_nrgb c env s3))))"
    using f3(2) dev0 k95 by (intro setupusb_nrgb_modes) simp
  have main: "case ?run of (r, s') \<Rightarrow>
      r = 0 \<and> \<not> HAS_FEATURES (dev s') (FEAT_RGB c) \<and> pollrate (dev s') = - 1 \<and>
      (\<forall>q. Malloc q \<notin> set (trace s')) \<and> Usbdequeue \<notin> set (ext_calls (trace s')) \<and>
      3 \<le> modecount (profile (dev s'))"
    unfolding run case_prod_beta
    using a b by (simp add: setupusb_nrgb_run tr path(2))
  have "usbqueue c kb messages count = Some (0, kb) \<and> usbqueue_all c kb calls = Some kb"
    if "\<not> HAS_FEATURES kb (FEAT_RGB c)"
    using that by (simp add: usbqueue_guarded usbqueue_all_guarded)
  moreover have "\<exists>sn'. revertusb c env fuel (sn\<lparr>trace := []\<rparr>) = Some (0, sn') \<and>
                      Usbdequeue \<notin> set (ext_calls (trace sn'))"
    if "\<not> HAS_FEATURES (dev sn) (FEAT_RGB c)"
    using that by (simp add: revertusb_def HAS_FEATURES_def)
  ultimately show ?thesis using main by blast
qed

theorem setupusb_nrgb_k95_witness:
  "setupusb_resolve ex_config (- 1) ex_kb 6940 6920 =
     ex_kb\<lparr>model := 95, vendor := 6940, product' := 6920, features := 12,
            name := ''Corsair K95''\<rparr> \<and>
   fst (setupusb ex_config (ex_env 288 res_ok) (- 1) (ex_sys ex_kb) 6940 6920) = 0 \<and>
   pollrate (dev (snd (setupusb ex_config (ex_env 288 res_ok) (- 1) (ex_sys ex_kb) 6940 6920)))
     = - 1 \<and>
   modecount (profile (dev (snd (setupusb ex_config (ex_env 288 res_ok) (- 1) (ex_sys ex_kb)
                                   6940 6920)))) = 3 \<and>
   queue (dev (snd (setupusb ex_config (ex_env 288 res_ok) (- 1) (ex_sys ex_kb) 6940 6920)))
     = replicate 4 None \<and>
   usbqueue ex_config ex_kb_nrgb ex_messages 1 = Some (0, ex_kb_nrgb) \<and>
   map_option fst (revertusb ex_config (ex_env 288 res_ok) 1 (ex_sys ex_kb_nrgb)) = Some 0"
proof -
  have mk: "\<forall>kb w. fst (ex_env 288 res_ok Makedevpath kb w) = 0"
    and io: "\<forall>kb w. fst (ex_env 288 res_ok Inputopen kb w) \<noteq> 0"
    by (simp_all add: ex_env_def res_ok_def)
  have frame: "\<forall>call\<in>{Makedevpath, Inputopen, Updateindicators 1, Nk95cmd (NK95_HWOFF ex_config),
                       Writefwnode}.
                 leaves (ex_env 288 res_ok) call features \<and> leaves (ex_env 288 res_ok) call model"
    by (simp add: leaves_def ex_env_def)
  have res: "setupusb_resolve ex_config (- 1) ex_kb 6940 6920 =
      ex_kb\<lparr>model := 95, vendor := 6940, product' := 6920, features := 12,
             name := ''Corsair K95''\<rparr>"
    by (simp add: setupusb_resolve_def show_int_def HAS_FEATURES_def Let_def ex_defs)
  have feat: "FEAT_RGB ex_config = 1"
    by (simp add: ex_config_def)
  have k95: "model (setupusb_resolve ex_config (- 1) (dev (ex_sys ex_kb)) 6940 6920) = 95"
    and nrgb: "\<not> HAS_FEATURES (setupusb_resolve ex_config (- 1) (dev (ex_sys ex_kb)) 6940 6920)
                   (FEAT_RGB ex_config)"
    by (simp_all add: ex_sys_def res HAS_FEATURES_def feat)
  have nrgb': "\<not> HAS_FEATURES ex_kb_nrgb (FEAT_RGB ex_config)"
    by (simp add: HAS_FEATURES_def feat ex_kb_nrgb_def)
  have t: "(ex_sys ex_kb_nrgb)\<lparr>trace := []\<rparr> = ex_sys ex_kb_nrgb" "dev (ex_sys ex_kb_nrgb) = ex_kb_nrgb"
    by (simp_all add: ex_sys_def)
  from setupusb_nrgb_k95 [OF mk io frame k95 nrgb, where kb = ex_kb_nrgb
      and messages = ex_messages and count = 1 and calls = "[]" and sn = "ex_sys ex_kb_nrgb"
      and fuel = 1] nrgb'
  have "usbqueue ex_config ex_kb_nrgb ex_messages 1 = Some (0, ex_kb_nrgb)"
    and "map_option fst (revertusb ex_config (ex_env 288 res_ok) 1 (ex_sys ex_kb_nrgb)) = Some 0"
    unfolding t by auto
  moreover
  from setupusb_nrgb_k95 [OF mk io frame k95 nrgb, where kb = ex_kb_nrgb
      and messages = ex_messages and count = 1 and calls = "[]" and sn = "ex_sys ex_kb_nrgb"
      and fuel = 1]
  have "fst (setupusb ex_config (ex_env 288 res_ok) (- 1) (ex_sys ex_kb) 6940 6920) = 0"
    "pollrate (dev (snd (setupusb ex_config (ex_env 288 res_ok) (- 1) (ex_sys ex_kb)
                           6940 6920))) = - 1"
    by (simp_all add: case_prod_beta ex_sys_def)
  moreover have "modecount (profile (dev (snd (setupusb ex_config (ex_env 288 res_ok) (- 1)
                                                (ex_sys ex_kb) 6940 6920)))) = 3"
    "queue (dev (snd (setupusb ex_config (ex_env 288 res_ok) (- 1) (ex_sys ex_kb) 6940 6920)))
       = replicate 4 None"
    by (simp_all add: eval_defs)
  ultimately show ?thesis using res by simp
qed

subsection \<open>Teardown\<close>

lemma count_list_map_Free:
  "distinct xs \<Longrightarrow> count_list (map Free xs) (Free q) \<le> 1"
  by (induction xs) (auto simp: image_iff)

lemma count_list_map_Free_other [simp]:
  "count_list (map Free xs) (Mutex_unlock l) = 0"
  "count_list (map Free xs) (Mutex_destroy l) = 0"
  by (induction xs) auto

lemma not_Free_image [simp]:
  "Addstore ser \<notin> Free ` A" "Ext call r kb \<notin> Free ` A"
  by auto

lemma closeusb_result:
  "fst (closeusb c env s) = 0"
  "infifo (dev s) = 0 \<Longrightarrow> closeusb c env s = (0, s)"
  "infifo (dev s) \<noteq> 0 \<Longrightarrow> dev (snd (closeusb c env s)) = zero_usbdevice c"
  by (simp_all add: closeusb_def Let_def)

text \<open>\<open>closeusb\<close> with a control path and no transport handle.\<close>

lemma closeusb_nohandle:
  assumes "infifo (dev s) \<noteq> 0" "handle (dev s) = 0"
  shows "\<exists>r1 kb1 r kb. trace (snd (closeusb c env s)) =
           trace s @ [Mutex_lock Keymutex, Ext Updateconnected r1 kb1, Ext Rmdevpath r kb,
                      Mutex_unlock Keymutex, Mutex_destroy Keymutex,
                      Mutex_unlock Mutex, Mutex_destroy Mutex]"
    and "store (snd (closeusb c env s)) = store s"
  using assms by (simp_all add: closeusb_def Let_def)

text \<open>
  \<open>closeusb\<close> with a control path and a transport handle: the events in order, where
  \<open>kb2\<close> is the record at the test of \<open>fwversion\<close>, and the store afterwards.
\<close>

lemma closeusb_handle:
  assumes "infifo (dev s) \<noteq> 0" "handle (dev s) \<noteq> 0"
  shows "\<exists>msg r1 kb1 r2 kb2 fs e r3 kb3 r4 kb4 r kb. trace (snd (closeusb c env s)) =
           trace s @ [Mutex_lock Keymutex, Printf msg, Ext Inputclose r1 kb1,
                      Ext Updateconnected r2 kb2] @
             map Free fs @
             [e, Ext Closehandle r3 kb3, Ext (Notifyconnect 0) r4 kb4, Ext Rmdevpath r kb,
              Mutex_unlock Keymutex, Mutex_destroy Keymutex, Mutex_unlock Mutex,
              Mutex_destroy Mutex] \<and>
           distinct fs \<and>
           (fwversion kb2 = 0 \<longrightarrow> (\<exists>r5 kb5. e = Ext Freeprofile r5 kb5)) \<and>
           (fwversion kb2 \<noteq> 0 \<longrightarrow> e = Addstore (serial (profile kb2))) \<and>
           store (snd (closeusb c env s)) =
             (if fwversion kb2 = 0 then store s
              else (store s)(serial (profile kb2) \<mapsto> profile kb2)) \<and>
           (leaves env Inputclose fwversion \<and> leaves env Updateconnected fwversion
              \<longrightarrow> fwversion kb2 = fwversion (dev s)) \<and>
           (leaves env Inputclose profile \<and> leaves env Updateconnected profile
              \<longrightarrow> profile kb2 = profile (dev s))"
proof -
  define msg where "msg = ''Disconnecting '' @ name (dev s) @ '' (S/N: '' @
                          serial (profile (dev s)) @ '')\<newline>''"
  define s1 where "s1 = snd (ext env Inputclose (emit (Printf msg) (emit (Mutex_lock Keymutex) s)))"
  define s2 where "s2 = snd (ext env Updateconnected s1)"
  define fs where "fs = filter (\<lambda>i. i < length (queue (dev s2)) \<and> queue (dev s2) ! i \<noteq> None)
                          [0 ..< QUEUE_LEN c]"
  define s4 where "s4 = (if fwversion (dev s2) = 0 then snd (ext env Freeprofile (free_queue c s2))
                         else addstore_memcpy (free_queue c s2))"
  define e where "e = (if fwversion (dev s2) = 0
      then Ext Freeprofile (fst (ext env Freeprofile (free_queue c s2))) (dev s4)
      else Addstore (serial (profile (dev s2))))"
  define s5 where "s5 = snd (ext env Closehandle s4)"
  define s6 where "s6 = snd (ext env (Notifyconnect 0) s5)"
  define s7 where "s7 = snd (ext env Rmdevpath s6)"
  have tr2: "trace s2 = trace s @ [Mutex_lock Keymutex, Printf msg,
      Ext Inputclose (fst (ext env Inputclose (emit (Printf msg) (emit (Mutex_lock Keymutex) s))))
        (dev s1),
      Ext Updateconnected (fst (ext env Updateconnected s1)) (dev s2)]"
    by (simp add: s2_def s1_def)
  have tr4: "trace s4 = trace s2 @ map Free fs @ [e]"
    by (simp add: s4_def e_def fs_def free_queue_def addstore_memcpy_def Let_def)
  have tr7: "trace s7 = trace s4 @ [Ext Closehandle (fst (ext env Closehandle s4)) (dev s5),
      Ext (Notifyconnect 0) (fst (ext env (Notifyconnect 0) s5)) (dev s6),
      Ext Rmdevpath (fst (ext env Rmdevpath s6)) (dev s7)]"
    by (simp add: s7_def s6_def s5_def)
  have run: "snd (closeusb c env s) =
      (emits [Mutex_unlock Keymutex, Mutex_destroy Keymutex, Mutex_unlock Mutex, Mutex_destroy Mutex]
         s7)\<lparr>dev := zero_usbdevice c\<rparr>"
    using assms
    by (simp add: closeusb_def Let_def s7_def s6_def s5_def s4_def s2_def s1_def msg_def
          free_queue_def)
  have tr: "trace (snd (closeusb c env s)) =
      trace s @ [Mutex_lock Keymutex, Printf msg,
        Ext Inputclose (fst (ext env Inputclose (emit (Printf msg) (emit (Mutex_lock Keymutex) s))))
          (dev s1),
        Ext Updateconnected (fst (ext env Updateconnected s1)) (dev s2)] @
      map Free fs @
      [e, Ext Closehandle (fst (ext env Closehandle s4)) (dev s5),
       Ext (Notifyconnect 0) (fst (ext env (Notifyconnect 0) s5)) (dev s6),
       Ext Rmdevpath (fst (ext env Rmdevpath s6)) (dev s7),
       Mutex_unlock Keymutex, Mutex_destroy Keymutex, Mutex_unlock Mutex, Mutex_destroy Mutex]"
    by (simp add: run tr7 tr4 tr2)
  have st: "store (snd (closeusb c env s)) =
      (if fwversion (dev s2) = 0 then store s
       else (store s)(serial (profile (dev s2)) \<mapsto> profile (dev s2)))"
    by (simp add: run s7_def s6_def s5_def s4_def s2_def s1_def free_queue_def
          addstore_memcpy_def Let_def)
  have "distinct fs" by (simp add: fs_def)
  moreover have "fwversion (dev s2) = 0 \<longrightarrow> (\<exists>r5 kb5. e = Ext Freeprofile r5 kb5)"
    by (simp add: e_def)
  moreover have "fwversion (dev s2) \<noteq> 0 \<longrightarrow> e = Addstore (serial (profile (dev s2)))"
    by (simp add: e_def)
  moreover have "leaves env Inputclose fwversion \<and> leaves env Updateconnected fwversion
      \<longrightarrow> fwversion (dev s2) = fwversion (dev s)"
    by (simp add: s2_def s1_def ext_leaves)
  moreover have "leaves env Inputclose profile \<and> leaves env Updateconnected profile
      \<longrightarrow> profile (dev s2) = profile (dev s)"
    by (simp add: s2_def s1_def ext_leaves)
  ultimately show ?thesis using tr st by blast
qed

text \<open>
  C6. \<open>closeusb\<close> always returns 0. Without a control path it does nothing. With one,
  it removes the control path, unlocks and destroys each of the two locks once, frees no
  buffer and no profile twice, and leaves the record all zero. A second \<open>closeusb\<close> on
  what the first left returns 0 and changes nothing: no event is added, so nothing is
  freed or unlocked again.
\<close>

theorem closeusb_idempotent:
  "fst (closeusb c env s) = 0 \<and>
   closeusb c env (snd (closeusb c env s)) = (0, snd (closeusb c env s)) \<and>
   (infifo (dev s) = 0 \<longrightarrow> closeusb c env s = (0, s)) \<and>
   (infifo (dev s) \<noteq> 0 \<longrightarrow>
      (case closeusb c env (s\<lparr>trace := []\<rparr>) of (r, s') \<Rightarrow>
         dev s' = zero_usbdevice c \<and>
         count_list (ext_calls (trace s')) Rmdevpath = 1 \<and>
         count_list (trace s') (Mutex_unlock Keymutex) = 1 \<and>
         count_list (trace s') (Mutex_destroy Keymutex) = 1 \<and>
         count_list (trace s') (Mutex_unlock Mutex) = 1 \<and>
         count_list (trace s') (Mutex_destroy Mutex) = 1 \<and>
         (\<forall>q. count_list (trace s') (Free q) \<le> 1) \<and>
         count_list (ext_calls (trace s')) Freeprofile \<le> 1))"
proof (intro conjI impI)
  show "fst (closeusb c env s) = 0" by (rule closeusb_result)
  show "closeusb c env (snd (closeusb c env s)) = (0, snd (closeusb c env s))"
  proof (cases "infifo (dev s) = 0")
    case True
    then show ?thesis by (simp add: closeusb_result)
  next
    case False
    then have "infifo (dev (snd (closeusb c env s))) = 0"
      by (simp add: closeusb_result zero_usbdevice_def)
    then show ?thesis by (rule closeusb_result)
  qed
  show "closeusb c env s = (0, s)" if "infifo (dev s) = 0"
    using that by (rule closeusb_result)
next
  assume live: "infifo (dev s) \<noteq> 0"
  let ?s = "s\<lparr>trace := []\<rparr>"
  let ?s' = "snd (closeusb c env ?s)"
  from live have live': "infifo (dev ?s) \<noteq> 0" by simp
  have counts: "count_list (ext_calls (trace ?s')) Rmdevpath = 1 \<and>
      count_list (trace ?s') (Mutex_unlock Keymutex) = 1 \<and>
      count_list (trace ?s') (Mutex_destroy Keymutex) = 1 \<and>
      count_list (trace ?s') (Mutex_unlock Mutex) = 1 \<and>
      count_list (trace ?s') (Mutex_destroy Mutex) = 1 \<and>
      (\<forall>q. count_list (trace ?s') (Free q) \<le> 1) \<and>
      count_list (ext_calls (trace ?s')) Freeprofile \<le> 1"
  proof (cases "handle (dev ?s) = 0")
    case True
    from closeusb_nohandle(1) [OF live' True, of c env] show ?thesis by auto
  next
    case False
    from closeusb_handle [OF live' False, of c env]
    obtain msg r1 kb1 r2 kb2 fs e r3 kb3 r4 kb4 r kb where
      tr: "trace ?s' = trace ?s @ [Mutex_lock Keymutex, Printf msg, Ext Inputclose r1 kb1,
                      Ext Updateconnected r2 kb2] @
             map Free fs @
             [e, Ext Closehandle r3 kb3, Ext (Notifyconnect 0) r4 kb4, Ext Rmdevpath r kb,
              Mutex_unlock Keymutex, Mutex_destroy Keymutex, Mutex_unlock Mutex,
              Mutex_destroy Mutex]"
      and fs: "distinct fs"
      and e: "fwversion kb2 = 0 \<longrightarrow> (\<exists>r5 kb5. e = Ext Freeprofile r5 kb5)"
         "fwversion kb2 \<noteq> 0 \<longrightarrow> e = Addstore (serial (profile kb2))"
      by blast
    from e have "(\<exists>r5 kb5. e = Ext Freeprofile r5 kb5) \<or> e = Addstore (serial (profile kb2))"
      by blast
    then show ?thesis
      using count_list_map_Free [OF fs] by (auto simp: tr)
  qed
  show "case closeusb c env ?s of (r, s') \<Rightarrow>
          dev s' = zero_usbdevice c \<and>
          count_list (ext_calls (trace s')) Rmdevpath = 1 \<and>
          count_list (trace s') (Mutex_unlock Keymutex) = 1 \<and>
          count_list (trace s') (Mutex_destroy Keymutex) = 1 \<and>
          count_list (trace s') (Mutex_unlock Mutex) = 1 \<and>
          count_list (trace s') (Mutex_destroy Mutex) = 1 \<and>
          (\<forall>q. count_list (trace s') (Free q) \<le> 1) \<and>
          count_list (ext_calls (trace s')) Freeprofile \<le> 1"
    unfolding case_prod_beta
    using counts live' by (simp add: closeusb_result)
qed

theorem closeusb_idempotent_witness:
  "infifo (dev (ex_sys ex_kb_rgb)) = 4 \<and>
   fst (closeusb ex_config (ex_env 288 res_ok) (ex_sys ex_kb_rgb)) = 0 \<and>
   dev (snd (closeusb ex_config (ex_env 288 res_ok) (ex_sys ex_kb_rgb))) =
     zero_usbdevice ex_config \<and>
   closeusb ex_config (ex_env 288 res_ok)
       (snd (closeusb ex_config (ex_env 288 res_ok) (ex_sys ex_kb_rgb))) =
     (0, snd (closeusb ex_config (ex_env 288 res_ok) (ex_sys ex_kb_rgb))) \<and>
   count_list (trace (snd (closeusb ex_config (ex_env 288 res_ok) (ex_sys ex_kb_rgb))))
     (Mutex_unlock Mutex) = 1 \<and>
   closeusb ex_config (ex_env 288 res_ok) (ex_sys (zero_usbdevice ex_config)) =
     (0, ex_sys (zero_usbdevice ex_config))"
proof -
  have i: "infifo (dev (ex_sys ex_kb_rgb)) = 4" "infifo (dev (ex_sys (zero_usbdevice ex_config))) = 0"
    and t: "(ex_sys ex_kb_rgb)\<lparr>trace := []\<rparr> = ex_sys ex_kb_rgb"
    by (simp_all add: ex_defs)
  from closeusb_idempotent [of ex_config "ex_env 288 res_ok" "ex_sys ex_kb_rgb"]
    closeusb_idempotent [of ex_config "ex_env 288 res_ok" "ex_sys (zero_usbdevice ex_config)"]
  show ?thesis
    unfolding t by (simp add: i case_prod_beta)
qed

text \<open>
  C4 (as the code has it). The calls before the test of \<open>fwversion\<close>, \<open>inputclose\<close> and
  \<open>updateconnected\<close>, leave \<open>fwversion\<close> and the profile alone. Then for a session with a
  control path and a transport handle: with \<open>fwversion \<noteq> 0\<close> the store gets the profile
  under the session's serial, through the one \<open>addstore\<close> of that serial, and the profile
  is not freed; with \<open>fwversion = 0\<close> the store is unchanged, \<open>addstore\<close> is not called and
  the profile is freed exactly once. For a session without control path or without
  transport handle the store is unchanged and the profile is neither stored nor freed.
\<close>

theorem closeusb_persist:
  assumes "leaves env Inputclose fwversion" "leaves env Updateconnected fwversion"
    and "leaves env Inputclose profile" "leaves env Updateconnected profile"
  shows "case closeusb c env (s\<lparr>trace := []\<rparr>) of (r, s') \<Rightarrow>
     (infifo (dev s) \<noteq> 0 \<and> handle (dev s) \<noteq> 0 \<and> fwversion (dev s) \<noteq> 0 \<longrightarrow>
        store s' = (store s)(serial (profile (dev s)) \<mapsto> profile (dev s)) \<and>
        Addstore (serial (profile (dev s))) \<in> set (trace s') \<and>
        (\<forall>ser. Addstore ser \<in> set (trace s') \<longrightarrow> ser = serial (profile (dev s))) \<and>
        Freeprofile \<notin> set (ext_calls (trace s'))) \<and>
     (infifo (dev s) \<noteq> 0 \<and> handle (dev s) \<noteq> 0 \<and> fwversion (dev s) = 0 \<longrightarrow>
        store s' = store s \<and> (\<forall>ser. Addstore ser \<notin> set (trace s')) \<and>
        count_list (ext_calls (trace s')) Freeprofile = 1) \<and>
     (infifo (dev s) = 0 \<or> handle (dev s) = 0 \<longrightarrow>
        store s' = store s \<and> (\<forall>ser. Addstore ser \<notin> set (trace s')) \<and>
        Freeprofile \<notin> set (ext_calls (trace s')))"
proof -
  let ?s = "s\<lparr>trace := []\<rparr>"
  let ?s' = "snd (closeusb c env ?s)"
  have handle: "store ?s' = (if fwversion (dev s) = 0 then store s
                    else (store s)(serial (profile (dev s)) \<mapsto> profile (dev s))) \<and>
      (fwversion (dev s) \<noteq> 0 \<longrightarrow>
         Addstore (serial (profile (dev s))) \<in> set (trace ?s') \<and>
         (\<forall>ser. Addstore ser \<in> set (trace ?s') \<longrightarrow> ser = serial (profile (dev s))) \<and>
         Freeprofile \<notin> set (ext_calls (trace ?s'))) \<and>
      (fwversion (dev s) = 0 \<longrightarrow>
         (\<forall>ser. Addstore ser \<notin> set (trace ?s')) \<and>
         count_list (ext_calls (trace ?s')) Freeprofile = 1)"
    if live: "infifo (dev s) \<noteq> 0" "handle (dev s) \<noteq> 0"
  proof -
    from live have live': "infifo (dev ?s) \<noteq> 0" "handle (dev ?s) \<noteq> 0" by simp_all
    from closeusb_handle [OF live', of c env] assms
    obtain msg r1 kb1 r2 kb2 fs e r3 kb3 r4 kb4 r kb where
      tr: "trace ?s' = trace ?s @ [Mutex_lock Keymutex, Printf msg, Ext Inputclose r1 kb1,
                      Ext Updateconnected r2 kb2] @
             map Free fs @
             [e, Ext Closehandle r3 kb3, Ext (Notifyconnect 0) r4 kb4, Ext Rmdevpath r kb,
              Mutex_unlock Keymutex, Mutex_destroy Keymutex, Mutex_unlock Mutex,
              Mutex_destroy Mutex]"
      and e: "fwversion kb2 = 0 \<longrightarrow> (\<exists>r5 kb5. e = Ext Freeprofile r5 kb5)"
         "fwversion kb2 \<noteq> 0 \<longrightarrow> e = Addstore (serial (profile kb2))"
      and st: "store ?s' = (if fwversion kb2 = 0 then store ?s
                            else (store ?s)(serial (profile kb2) \<mapsto> profile kb2))"
      and kb2: "fwversion kb2 = fwversion (dev ?s)" "profile kb2 = profile (dev ?s)"
      by blast
    show ?thesis
    proof (cases "fwversion (dev s) = 0")
      case True
      with e(1) kb2 obtain r5 kb5 where "e = Ext Freeprofile r5 kb5" by auto
      with True st kb2 show ?thesis by (auto simp: tr)
    next
      case False
      with e(2) kb2 have "e = Addstore (serial (profile (dev s)))" by simp
      with False st kb2 show ?thesis by (auto simp: tr)
    qed
  qed
  have nohandle: "store ?s' = store s \<and> (\<forall>ser. Addstore ser \<notin> set (trace ?s')) \<and>
      Freeprofile \<notin> set (ext_calls (trace ?s'))"
    if "infifo (dev s) = 0 \<or> handle (dev s) = 0"
  proof (cases "infifo (dev s) = 0")
    case True
    then show ?thesis by (simp add: closeusb_result)
  next
    case False
    with that have live': "infifo (dev ?s) \<noteq> 0" "handle (dev ?s) = 0" by simp_all
    from closeusb_nohandle [OF live', of c env] show ?thesis by auto
  qed
  show ?thesis
    unfolding case_prod_beta using handle nohandle by auto
qed

theorem closeusb_persist_witness:
  "store (snd (closeusb ex_config (ex_env 288 res_ok) (ex_sys ex_kb_rgb))) =
     [''SN1'' \<mapsto> profile ex_kb_rgb] \<and>
   Addstore ''SN1'' \<in> set (trace (snd (closeusb ex_config (ex_env 288 res_ok)
                                         (ex_sys ex_kb_rgb)))) \<and>
   store (snd (closeusb ex_config (ex_env 288 res_ok) (ex_sys (ex_kb_rgb\<lparr>fwversion := 0\<rparr>))))
     = Map.empty \<and>
   count_list (ext_calls (trace (snd (closeusb ex_config (ex_env 288 res_ok)
                                        (ex_sys (ex_kb_rgb\<lparr>fwversion := 0\<rparr>))))))
     Freeprofile = 1 \<and>
   store (snd (closeusb ex_config (ex_env 288 res_ok) (ex_sys ex_kb_lost))) = Map.empty"
proof -
  have frame: "leaves (ex_env 288 res_ok) Inputclose fwversion"
    "leaves (ex_env 288 res_ok) Updateconnected fwversion"
    "leaves (ex_env 288 res_ok) Inputclose profile"
    "leaves (ex_env 288 res_ok) Updateconnected profile"
    by (simp_all add: leaves_def ex_env_def)
  have t: "(ex_sys kb)\<lparr>trace := []\<rparr> = ex_sys kb" for kb
    by (simp add: ex_sys_def)
  have d: "dev (ex_sys kb) = kb" "store (ex_sys kb) = Map.empty" for kb
    by (simp_all add: ex_sys_def)
  have kb: "infifo ex_kb_rgb = 4" "handle ex_kb_rgb = 3" "fwversion ex_kb_rgb = 288"
    "serial (profile ex_kb_rgb) = ''SN1''" "handle ex_kb_lost = 0"
    by (simp_all add: ex_defs)
  from closeusb_persist [OF frame, where c = ex_config and s = "ex_sys ex_kb_rgb"]
    closeusb_persist [OF frame, where c = ex_config
      and s = "ex_sys (ex_kb_rgb\<lparr>fwversion := 0\<rparr>)"]
    closeusb_persist [OF frame, where c = ex_config and s = "ex_sys ex_kb_lost"]
  show ?thesis
    unfolding t by (simp add: d kb case_prod_beta)
qed

text \<open>
  C4 as stated fails: the session has a control path and a firmware version and no
  transport handle. \<open>closeusb\<close> tears it down (the record is zeroed, the control path
  removed) and no store entry is made for its serial.
\<close>

theorem closeusb_persist_counterexample:
  "infifo (dev (ex_sys ex_kb_lost)) = 4 \<and> fwversion (dev (ex_sys ex_kb_lost)) = 288 \<and>
   serial (profile (dev (ex_sys ex_kb_lost))) = ''SN1'' \<and>
   dev (snd (closeusb ex_config (ex_env 288 res_ok) (ex_sys ex_kb_lost))) =
     zero_usbdevice ex_config \<and>
   trace (snd (closeusb ex_config (ex_env 288 res_ok) (ex_sys ex_kb_lost))) =
     [Mutex_lock Keymutex, Ext Updateconnected 0 ex_kb_lost, Ext Rmdevpath 0 ex_kb_lost,
      Mutex_unlock Keymutex, Mutex_destroy Keymutex, Mutex_unlock Mutex, Mutex_destroy Mutex] \<and>
   store (snd (closeusb ex_config (ex_env 288 res_ok) (ex_sys ex_kb_lost))) ''SN1'' = None"
  by (simp add: closeusb_def run_defs ex_defs)

subsection \<open>Reset\<close>

lemmas leaves_queuecount = ext_leaves [where f = queuecount]

text \<open>
  C7 (as the code has it). If \<open>os_resetusb\<close> fails, \<open>_resetusb\<close> returns its result and
  the record as \<open>os_resetusb\<close> left it, so with \<open>queuecount\<close> unchanged when \<open>os_resetusb\<close>
  does not touch it. If \<open>os_resetusb\<close> succeeds, \<open>queuecount\<close> is set to 0 before anything
  else is done: on a non-RGB device that is the record returned, with result 0; on an RGB
  device the re-initialisation starts on it, the firmware query being made on the record
  with \<open>queuecount = 0\<close>, and \<open>queuecount\<close> at the return is what the re-initialisation
  calls make of it: 0 whenever they leave it alone. A result 0 implies that
  \<open>os_resetusb\<close> succeeded.
\<close>

theorem resetusb_queuecount:
  "case resetusb_fn c env s fname lnum of (r, s') \<Rightarrow>
     (fst (env (Os_resetusb fname lnum) (dev s) (world s)) \<noteq> 0 \<longrightarrow>
        r = fst (env (Os_resetusb fname lnum) (dev s) (world s)) \<and>
        dev s' = fst (snd (env (Os_resetusb fname lnum) (dev s) (world s)))) \<and>
     (fst (env (Os_resetusb fname lnum) (dev s) (world s)) \<noteq> 0 \<and>
      leaves env (Os_resetusb fname lnum) queuecount \<longrightarrow>
        queuecount (dev s') = queuecount (dev s)) \<and>
     (fst (env (Os_resetusb fname lnum) (dev s) (world s)) = 0 \<and>
      \<not> HAS_FEATURES (fst (snd (env (Os_resetusb fname lnum) (dev s) (world s)))) (FEAT_RGB c) \<longrightarrow>
        r = 0 \<and>
        dev s' = (fst (snd (env (Os_resetusb fname lnum) (dev s) (world s))))\<lparr>queuecount := 0\<rparr>) \<and>
     (fst (env (Os_resetusb fname lnum) (dev s) (world s)) = 0 \<and>
      HAS_FEATURES (fst (snd (env (Os_resetusb fname lnum) (dev s) (world s)))) (FEAT_RGB c) \<longrightarrow>
        (\<exists>evs. trace s' =
           trace s @
           [Delay Long,
            Ext (Os_resetusb fname lnum) 0
              (fst (snd (env (Os_resetusb fname lnum) (dev s) (world s)))),
            Delay Long,
            Ext Getfwversion
              (fst (env Getfwversion
                      ((fst (snd (env (Os_resetusb fname lnum) (dev s) (world s))))
                         \<lparr>queuecount := 0\<rparr>)
                      (snd (snd (env (Os_resetusb fname lnum) (dev s) (world s))))))
              (fst (snd (env Getfwversion
                      ((fst (snd (env (Os_resetusb fname lnum) (dev s) (world s))))
                         \<lparr>queuecount := 0\<rparr>)
                      (snd (snd (env (Os_resetusb fname lnum) (dev s) (world s)))))))] @
           evs)) \<and>
     (fst (env (Os_resetusb fname lnum) (dev s) (world s)) = 0 \<and> reinit_keeps_queuecount env \<longrightarrow>
        queuecount (dev s') = 0) \<and>
     (r = 0 \<longrightarrow> fst (env (Os_resetusb fname lnum) (dev s) (world s)) = 0)"
proof -
  let ?os = "env (Os_resetusb fname lnum) (dev s) (world s)"
  let ?s1 = "snd (ext env (Os_resetusb fname lnum) (emit (Delay Long) s))"
  let ?g = "env Getfwversion ((fst (snd ?os))\<lparr>queuecount := 0\<rparr>) (snd (snd ?os))"
  have os: "fst (ext env (Os_resetusb fname lnum) (emit (Delay Long) s)) = fst ?os"
    "dev ?s1 = fst (snd ?os)"
    by (simp_all add: fst_ext dev_ext)
  show ?thesis
  proof (cases "fst ?os = 0")
    case False
    then have "resetusb_fn c env s fname lnum = (fst ?os, ?s1)"
      by (simp add: resetusb_fn_def Let_def case_prod_beta os)
    with False show ?thesis
      by (simp add: os leaves_def)
  next
    case True
    show ?thesis
    proof (cases "HAS_FEATURES (fst (snd ?os)) (FEAT_RGB c)")
      case False
      with True have "resetusb_fn c env s fname lnum =
          (0, upd (\<lambda>kb. kb\<lparr>queuecount := 0\<rparr>) (emit (Delay Long) ?s1))"
        by (simp add: resetusb_fn_def Let_def case_prod_beta os HAS_FEATURES_def)
      with True False show ?thesis by (simp add: os)
    next
      case rgb: True
      have "queuecount (dev (snd (resetusb_fn c env s fname lnum))) = 0"
        if "reinit_keeps_queuecount env"
        using that True
        by (simp add: resetusb_fn_def Let_def case_prod_beta os reinit_keeps_queuecount_def
              leaves_queuecount)
      moreover have "\<exists>evs. trace (snd (resetusb_fn c env s fname lnum)) =
          trace s @
          [Delay Long, Ext (Os_resetusb fname lnum) 0 (fst (snd ?os)), Delay Long,
           Ext Getfwversion (fst ?g) (fst (snd ?g))] @ evs"
        using True rgb
        by (simp add: resetusb_fn_def Let_def case_prod_beta os fst_ext dev_ext world_ext
              HAS_FEATURES_def)
      ultimately show ?thesis using True rgb
        by (simp add: case_prod_beta)
    qed
  qed
qed

theorem resetusb_queuecount_witness:
  "fst (resetusb_fn ex_config (ex_env 288 res_ok) (ex_sys (ex_kb_rgb\<lparr>queuecount := 3\<rparr>))
          ''usb.c'' 178) = 0 \<and>
   queuecount (dev (snd (resetusb_fn ex_config (ex_env 288 res_ok)
                           (ex_sys (ex_kb_rgb\<lparr>queuecount := 3\<rparr>)) ''usb.c'' 178))) = 0 \<and>
   fst (resetusb_fn ex_config (ex_env 288 res_reset_5) (ex_sys (ex_kb_rgb\<lparr>queuecount := 3\<rparr>))
          ''usb.c'' 178) = - 1 \<and>
   queuecount (dev (snd (resetusb_fn ex_config (ex_env 288 res_reset_5)
                           (ex_sys (ex_kb_rgb\<lparr>queuecount := 3\<rparr>)) ''usb.c'' 178))) = 3 \<and>
   dev (snd (resetusb_fn ex_config (ex_env 288 res_ok) (ex_sys (ex_kb_nrgb\<lparr>queuecount := 3\<rparr>))
               ''usb.c'' 178)) = ex_kb_nrgb\<lparr>queuecount := 0\<rparr>"
proof -
  have keeps: "reinit_keeps_queuecount (ex_env 288 res_ok)"
    and os: "leaves (ex_env 288 res_reset_5) (Os_resetusb ''usb.c'' 178) queuecount"
    by (simp_all add: reinit_keeps_queuecount_def leaves_def ex_env_def)
  have d: "dev (ex_sys kb) = kb" "world (ex_sys kb) = 0" for kb
    by (simp_all add: ex_sys_def)
  have r: "ex_env 288 res_ok (Os_resetusb ''usb.c'' 178) kb 0 = (0, kb, 1)"
    "ex_env 288 res_reset_5 (Os_resetusb ''usb.c'' 178) kb 0 = (- 1, kb, 1)" for kb
    by (simp_all add: ex_env_def res_ok_def res_reset_5_def)
  have f: "\<not> HAS_FEATURES (ex_kb_nrgb\<lparr>queuecount := 3\<rparr>) (FEAT_RGB ex_config)"
    by (simp add: HAS_FEATURES_def ex_defs)
  have ok: "fst (resetusb_fn ex_config (ex_env 288 res_ok) (ex_sys (ex_kb_rgb\<lparr>queuecount := 3\<rparr>))
                   ''usb.c'' 178) = 0"
    by (simp add: resetusb_fn_def run_defs ex_defs)
  from resetusb_queuecount [where c = ex_config and env = "ex_env 288 res_ok"
      and s = "ex_sys (ex_kb_rgb\<lparr>queuecount := 3\<rparr>)" and fname = "''usb.c''" and lnum = 178]
    resetusb_queuecount [where c = ex_config and env = "ex_env 288 res_reset_5"
      and s = "ex_sys (ex_kb_rgb\<lparr>queuecount := 3\<rparr>)" and fname = "''usb.c''" and lnum = 178]
    resetusb_queuecount [where c = ex_config and env = "ex_env 288 res_ok"
      and s = "ex_sys (ex_kb_nrgb\<lparr>queuecount := 3\<rparr>)" and fname = "''usb.c''" and lnum = 178]
  show ?thesis
    using keeps os f ok by (simp add: case_prod_beta d r)
qed

text \<open>
  C7 as stated fails: an RGB session has three commands queued, the transport-level reset
  succeeds, and \<open>setactive\<close>, called to re-activate the device, queues a command (as it
  does in \<open>revertusb\<close>, which drains the queue a second time after \<open>setactive(kb, 0)\<close>).
  The reset returns 0 and \<open>queuecount\<close> is 1.
\<close>

theorem resetusb_queuecount_counterexample:
  "fst (ex_env_setactive 288 res_ok (Os_resetusb ''usb.c'' 178)
          (dev (ex_sys (ex_kb_rgb\<lparr>queuecount := 3\<rparr>)))
          (world (ex_sys (ex_kb_rgb\<lparr>queuecount := 3\<rparr>)))) = 0 \<and>
   fst (resetusb_fn ex_config (ex_env_setactive 288 res_ok)
          (ex_sys (ex_kb_rgb\<lparr>queuecount := 3\<rparr>)) ''usb.c'' 178) = 0 \<and>
   dev (snd (resetusb_fn ex_config (ex_env_setactive 288 res_ok)
               (ex_sys (ex_kb_rgb\<lparr>queuecount := 3\<rparr>)) ''usb.c'' 178)) =
     ex_kb_rgb\<lparr>queuecount := 1\<rparr> \<and>
   ext_results (trace (snd (resetusb_fn ex_config (ex_env_setactive 288 res_ok)
               (ex_sys (ex_kb_rgb\<lparr>queuecount := 3\<rparr>)) ''usb.c'' 178))) =
     [(Os_resetusb ''usb.c'' 178, 0), (Getfwversion, 0), (Setactive 1, 0),
      (Hwloadprofile 1, 0), (Updatergb 1, 0)]"
  by (simp add: resetusb_fn_def run_defs ex_defs)

text \<open>The result \<open>- 2\<close> of \<open>_resetusb\<close> is the result \<open>- 2\<close> of \<open>os_resetusb\<close>.\<close>

lemma resetusb_fn_gone:
  "fst (resetusb_fn c env s fname lnum) = - 2 \<longleftrightarrow>
   fst (env (Os_resetusb fname lnum) (dev s) (world s)) = - 2"
  by (simp add: resetusb_fn_def Let_def case_prod_beta fst_ext)

text \<open>A failed firmware query or profile load inside \<open>_resetusb\<close> makes the result \<open>- 1\<close>.\<close>

lemma resetusb_fn_reinit:
  assumes "(call, rc) \<in> set (ext_results (trace (snd (resetusb_fn c env (s\<lparr>trace := []\<rparr>) fname lnum))))"
    and "call = Getfwversion \<or> call = Hwloadprofile 0 \<or> call = Hwloadprofile 1"
    and "rc \<noteq> 0"
  shows "fst (resetusb_fn c env (s\<lparr>trace := []\<rparr>) fname lnum) = - 1"
  using assms
  by (auto simp: resetusb_fn_def Let_def case_prod_beta split: if_splits)

text \<open>The retry loop returns exactly when an attempt returns 0 or \<open>- 2\<close>.\<close>

lemma usb_tryreset_loop_iff:
  "usb_tryreset_loop c env fuel s = Some (r, s') \<longleftrightarrow>
   (\<exists>k<fuel. \<exists>res s''. nth_attempt c env k s = Some (res, s'') \<and>
      (res = 0 \<and> r = 0 \<and> s' = emit (Printf ''Reset success\<newline>'') s'' \<or>
       res = - 2 \<and> r = - 1 \<and> s' = emit (Printf ''Reset failed. Disconnecting.\<newline>'') s''))"
proof (induction fuel arbitrary: s)
  case 0
  then show ?case by simp
next
  case (Suc n)
  obtain res s1 where a: "attempt c env s = (res, s1)" by (cases "attempt c env s")
  then have a': "resetusb c env (emit (Delay Long) s) = (res, s1)" by (simp add: attempt_def)
  show ?case
  proof (cases "res = 0 \<or> res = - 2")
    case True
    then show ?thesis
      using a a' by (auto simp: Ex_less_Suc2)
  next
    case False
    then show ?thesis
      using a a' Suc.IH [of s1] by (simp add: Ex_less_Suc2)
  qed
qed

text \<open>
  C2 (as the code has it). \<open>usb_tryreset\<close> returns exactly when a reset attempt returns
  0 (then it returns 0) or \<open>- 2\<close> (then it gives up and returns \<open>- 1\<close>), and retries on
  every other result. \<open>_resetusb\<close> returns \<open>- 2\<close> exactly when \<open>os_resetusb\<close> itself does;
  a failed firmware query or profile load inside the reset returns \<open>- 1\<close>, which is
  retried. So when \<open>os_resetusb\<close> fails five times with results other than \<open>- 2\<close> and the
  sixth attempt returns 0, \<open>usb_tryreset\<close> returns 0 on the sixth attempt.
\<close>

theorem usb_tryreset_retries:
  "(fst (resetusb c env s) = - 2 \<longleftrightarrow>
      fst (env (Os_resetusb ''usb.c'' 178) (dev s) (world s)) = - 2) \<and>
   (\<forall>call rc.
      (call = Getfwversion \<or> call = Hwloadprofile 0 \<or> call = Hwloadprofile 1) \<and> rc \<noteq> 0 \<and>
      (call, rc) \<in> set (ext_results (trace (snd (resetusb c env (s\<lparr>trace := []\<rparr>)))))
      \<longrightarrow> fst (resetusb c env (s\<lparr>trace := []\<rparr>)) = - 1) \<and>
   (usb_tryreset c env fuel s = Some (r, s') \<longleftrightarrow>
      (\<exists>k<fuel. \<exists>res s''.
          nth_attempt c env k (emit (Printf ''Attempting reset...\<newline>'') s) = Some (res, s'') \<and>
          (res = 0 \<and> r = 0 \<and> s' = emit (Printf ''Reset success\<newline>'') s'' \<or>
           res = - 2 \<and> r = - 1 \<and> s' = emit (Printf ''Reset failed. Disconnecting.\<newline>'') s'')))"
  unfolding resetusb_def usb_tryreset_def
  using resetusb_fn_gone [of c env s] resetusb_fn_reinit [of _ _ c env s]
    usb_tryreset_loop_iff [of c env fuel "emit (Printf ''Attempting reset...\<newline>'') s" r s']
  by blast
theorem usb_tryreset_retries_witness:
  "map_option fst (nth_attempt ex_config (ex_env 288 res_reset_5) 5
                     (emit (Printf ''Attempting reset...\<newline>'') (ex_sys ex_kb_rgb))) = Some 0 \<and>
   map_option fst (usb_tryreset ex_config (ex_env 288 res_reset_5) 6 (ex_sys ex_kb_rgb)) = Some 0 \<and>
   map_option fst (usb_tryreset ex_config (ex_env 288 res_reset_5) 5 (ex_sys ex_kb_rgb)) = None \<and>
   fst (resetusb ex_config (ex_env 288 res_reset_gone) (ex_sys ex_kb_rgb)) = - 2 \<and>
   map_option fst (usb_tryreset ex_config (ex_env 288 res_reset_gone) 1 (ex_sys ex_kb_rgb))
     = Some (- 1)"
proof -
  let ?start = "emit (Printf ''Attempting reset...\<newline>'') (ex_sys ex_kb_rgb)"
  have five: "map_option fst (nth_attempt ex_config (ex_env 288 res_reset_5) 5 ?start) = Some 0"
    by code_simp
  then obtain s5 where "nth_attempt ex_config (ex_env 288 res_reset_5) 5 ?start = Some (0, s5)"
    by (auto simp del: nth_attempt.simps)
  then have six: "usb_tryreset ex_config (ex_env 288 res_reset_5) 6 (ex_sys ex_kb_rgb) =
      Some (0, emit (Printf ''Reset success\<newline>'') s5)"
    using usb_tryreset_retries [where c = ex_config and env = "ex_env 288 res_reset_5"
        and fuel = 6 and s = "ex_sys ex_kb_rgb" and r = 0
        and s' = "emit (Printf ''Reset success\<newline>'') s5"]
    by (auto intro: exI [of _ 5])
  have short: "map_option fst (usb_tryreset ex_config (ex_env 288 res_reset_5) 5
                                 (ex_sys ex_kb_rgb)) = None"
    by code_simp
  have os: "fst (ex_env 288 res_reset_gone (Os_resetusb ''usb.c'' 178) (dev (ex_sys ex_kb_rgb))
                   (world (ex_sys ex_kb_rgb))) = - 2"
    by (simp add: ex_env_def res_reset_gone_def)
  then have gone: "fst (resetusb ex_config (ex_env 288 res_reset_gone) (ex_sys ex_kb_rgb)) = - 2"
    using usb_tryreset_retries [where c = ex_config and env = "ex_env 288 res_reset_gone"
        and s = "ex_sys ex_kb_rgb"]
    by simp
  have "map_option fst (nth_attempt ex_config (ex_env 288 res_reset_gone) 0
                          (emit (Printf ''Attempting reset...\<newline>'') (ex_sys ex_kb_rgb))) = Some (- 2)"
    by code_simp
  then obtain s0 where "nth_attempt ex_config (ex_env 288 res_reset_gone) 0
      (emit (Printf ''Attempting reset...\<newline>'') (ex_sys ex_kb_rgb)) = Some (- 2, s0)"
    by (auto simp del: nth_attempt.simps)
  then have "usb_tryreset ex_config (ex_env 288 res_reset_gone) 1 (ex_sys ex_kb_rgb) =
      Some (- 1, emit (Printf ''Reset failed. Disconnecting.\<newline>'') s0)"
    using usb_tryreset_retries [where c = ex_config and env = "ex_env 288 res_reset_gone"
        and fuel = 1 and s = "ex_sys ex_kb_rgb" and r = "- 1"
        and s' = "emit (Printf ''Reset failed. Disconnecting.\<newline>'') s0"]
    by (auto intro: exI [of _ 0])
  with five six short gone show ?thesis by simp
qed

text \<open>
  C2 as stated fails: the firmware query inside the first reset attempt fails, the
  attempt returns \<open>- 1\<close>, and \<open>usb_tryreset\<close> does not give up: it makes a second
  attempt and returns 0.
\<close>

theorem usb_tryreset_retries_counterexample:
  "ext_results (trace (snd (attempt ex_config (ex_env 288 res_fwfail_once)
                              (emit (Printf ''Attempting reset...\<newline>'') (ex_sys ex_kb_rgb))))) =
     [(Os_resetusb ''usb.c'' 178, 0), (Getfwversion, 1)] \<and>
   fst (attempt ex_config (ex_env 288 res_fwfail_once)
          (emit (Printf ''Attempting reset...\<newline>'') (ex_sys ex_kb_rgb))) = - 1 \<and>
   map_option fst (usb_tryreset ex_config (ex_env 288 res_fwfail_once) 2 (ex_sys ex_kb_rgb))
     = Some 0"
  by code_simp

subsection \<open>Revert\<close>

lemma stuck_after_drain:
  "stuck_after env d k s = Some s' \<Longrightarrow> k < n \<Longrightarrow> drain_queue env d n s = Some (- 1, s')"
proof (induction k arbitrary: s n)
  case 0
  then obtain m where "n = Suc m" by (cases n) auto
  with 0 show ?case by (auto simp: dequeue_def case_prod_beta split: if_splits)
next
  case (Suc k)
  then obtain m where n: "n = Suc m" "k < m" by (cases n) auto
  from Suc.prems(1) have step: "queuecount (dev s) > 0" "fst (dequeue env d s) > 0"
    "stuck_after env d k (snd (dequeue env d s)) = Some s'"
    by (auto split: if_splits)
  from Suc.IH [OF step(3) n(2)] step(1,2) show ?case
    by (simp add: n dequeue_def case_prod_beta)
qed

lemma drained_after_drain:
  "drained_after env d k s = Some s' \<Longrightarrow> k \<le> n \<Longrightarrow> drain_queue env d n s = Some (0, s')"
proof (induction k arbitrary: s n)
  case 0
  then show ?case by (cases n) (auto split: if_splits)
next
  case (Suc k)
  then obtain m where n: "n = Suc m" "k \<le> m" by (cases n) auto
  from Suc.prems(1) have step: "queuecount (dev s) > 0" "fst (dequeue env d s) > 0"
    "drained_after env d k (snd (dequeue env d s)) = Some s'"
    by (auto split: if_splits)
  from Suc.IH [OF step(3) n(2)] step(1,2) show ?case
    by (simp add: n dequeue_def case_prod_beta)
qed

lemma dequeue_calls:
  "ext_calls (trace (snd (dequeue env d s))) = ext_calls (trace s) @ [Usbdequeue]"
  by (simp add: dequeue_def)

lemma stuck_after_calls:
  "stuck_after env d k s = Some s' \<Longrightarrow>
   ext_calls (trace s') = ext_calls (trace s) @ replicate (Suc k) Usbdequeue"
proof (induction k arbitrary: s)
  case 0
  then show ?case by (auto simp: dequeue_calls split: if_splits)
next
  case (Suc k)
  from Suc.prems have "stuck_after env d k (snd (dequeue env d s)) = Some s'"
    by (auto split: if_splits)
  from Suc.IH [OF this] show ?case
    by (simp add: dequeue_calls replicate_append_same)
qed

lemma drained_after_calls:
  "drained_after env d k s = Some s' \<Longrightarrow>
   ext_calls (trace s') = ext_calls (trace s) @ replicate k Usbdequeue"
proof (induction k arbitrary: s)
  case 0
  then show ?case by (auto split: if_splits)
next
  case (Suc k)
  from Suc.prems have "drained_after env d k (snd (dequeue env d s)) = Some s'"
    by (auto split: if_splits)
  from Suc.IH [OF this] show ?case
    by (simp add: dequeue_calls replicate_append_same)
qed

text \<open>
  The events of a drain loop that returns, and of a \<open>revertusb\<close> that returns: a dequeue
  that yielded nothing is the last event, and there is one exactly when the result is
  \<open>- 1\<close>.
\<close>

lemma drain_queue_trace:
  "drain_queue env d n s = Some (r, s') \<Longrightarrow>
   \<exists>evs. trace s' = trace s @ evs \<and> (\<forall>e\<in>set (butlast evs). \<not> failed_dequeue e) \<and>
         (r = 0 \<or> r = - 1) \<and>
         (r = - 1 \<longrightarrow> evs \<noteq> [] \<and> failed_dequeue (last evs)) \<and>
         (r = 0 \<longrightarrow> (\<forall>e\<in>set evs. \<not> failed_dequeue e))"
proof (induction n arbitrary: s)
  case 0
  then show ?case by (auto split: if_splits)
next
  case (Suc n)
  show ?case
  proof (cases "queuecount (dev s) > 0")
    case False
    with Suc.prems show ?thesis by auto
  next
    case True
    let ?r0 = "fst (dequeue env d s)"
    let ?s1 = "snd (dequeue env d s)"
    have tr1: "trace ?s1 = trace s @ [Delay d, Ext Usbdequeue ?r0 (dev ?s1)]"
      by (simp add: dequeue_def)
    show ?thesis
    proof (cases "?r0 \<le> 0")
      case stuck: True
      with True Suc.prems have "r = - 1" "s' = ?s1"
        by (auto simp: dequeue_def case_prod_beta)
      with stuck tr1 show ?thesis by simp
    next
      case False
      with True Suc.prems have "drain_queue env d n ?s1 = Some (r, s')"
        by (auto simp: dequeue_def case_prod_beta)
      from Suc.IH [OF this] obtain evs where
        evs: "trace s' = trace ?s1 @ evs" "\<forall>e\<in>set (butlast evs). \<not> failed_dequeue e"
          "r = 0 \<or> r = - 1" "r = - 1 \<longrightarrow> evs \<noteq> [] \<and> failed_dequeue (last evs)"
          "r = 0 \<longrightarrow> (\<forall>e\<in>set evs. \<not> failed_dequeue e)"
        by blast
      let ?evs = "Delay d # Ext Usbdequeue ?r0 (dev ?s1) # evs"
      have "trace s' = trace s @ ?evs" using evs(1) tr1 by simp
      moreover have "\<forall>e\<in>set (butlast ?evs). \<not> failed_dequeue e"
        using evs(2) False by auto
      moreover have "r = - 1 \<longrightarrow> ?evs \<noteq> [] \<and> failed_dequeue (last ?evs)"
        using evs(4) by simp
      moreover have "r = 0 \<longrightarrow> (\<forall>e\<in>set ?evs. \<not> failed_dequeue e)"
        using evs(5) False by auto
      ultimately show ?thesis using evs(3) by blast
    qed
  qed
qed

lemma revertusb_trace:
  assumes "revertusb c env fuel s = Some (r, s')"
  shows "\<exists>evs. trace s' = trace s @ evs \<and> (\<forall>e\<in>set (butlast evs). \<not> failed_dequeue e) \<and>
         (r = 0 \<or> r = - 1) \<and>
         (r = - 1 \<longrightarrow> evs \<noteq> [] \<and> failed_dequeue (last evs)) \<and>
         (r = 0 \<longrightarrow> (\<forall>e\<in>set evs. \<not> failed_dequeue e))"
proof (cases "NEEDS_FW_UPDATE c (dev s) \<or> \<not> HAS_FEATURES (dev s) (FEAT_RGB c)")
  case True
  with assms show ?thesis by (auto simp: revertusb_def split: if_splits)
next
  case False
  with assms obtain r1 s1 where first: "drain_queue env Short fuel s = Some (r1, s1)"
    by (auto simp: revertusb_def split: option.splits)
  from drain_queue_trace [OF first] obtain evs1 where
    e1: "trace s1 = trace s @ evs1" "\<forall>e\<in>set (butlast evs1). \<not> failed_dequeue e"
      "r1 = 0 \<or> r1 = - 1" "r1 = - 1 \<longrightarrow> evs1 \<noteq> [] \<and> failed_dequeue (last evs1)"
      "r1 = 0 \<longrightarrow> (\<forall>e\<in>set evs1. \<not> failed_dequeue e)"
    by blast
  show ?thesis
  proof (cases "r1 = 0")
    case stuck: False
    with assms False first have "r = - 1" "s' = s1"
      by (auto simp: revertusb_def)
    with e1 stuck show ?thesis by auto
  next
    case True
    let ?s2 = "deactivate env s1"
    from assms False first True obtain r2 where
      second: "drain_queue env Medium fuel ?s2 = Some (r2, s')" and r: "r = (if r2 \<noteq> 0 then - 1 else 0)"
      by (auto simp: revertusb_def deactivate_def Let_def split: option.splits if_splits)
    from drain_queue_trace [OF second] obtain evs2 where
      e2: "trace s' = trace ?s2 @ evs2" "\<forall>e\<in>set (butlast evs2). \<not> failed_dequeue e"
        "r2 = 0 \<or> r2 = - 1" "r2 = - 1 \<longrightarrow> evs2 \<noteq> [] \<and> failed_dequeue (last evs2)"
        "r2 = 0 \<longrightarrow> (\<forall>e\<in>set evs2. \<not> failed_dequeue e)"
      by blast
    obtain ra kba where tr2: "trace ?s2 = trace s1 @ [Delay Medium, Ext (Setactive 0) ra kba]"
      by (simp add: deactivate_def)
    let ?evs = "evs1 @ [Delay Medium, Ext (Setactive 0) ra kba] @ evs2"
    have "trace s' = trace s @ ?evs" using e1(1) e2(1) tr2 by simp
    moreover have "\<forall>e\<in>set (butlast ?evs). \<not> failed_dequeue e"
      using e1(5) True e2(2) by (auto simp: butlast_append)
    moreover have "r = - 1 \<longrightarrow> ?evs \<noteq> [] \<and> failed_dequeue (last ?evs)"
      using e2(3,4) r by auto
    moreover have "r = 0 \<longrightarrow> (\<forall>e\<in>set ?evs. \<not> failed_dequeue e)"
      using e1(5) True e2(3,5) r by auto
    moreover have "r = 0 \<or> r = - 1" using r by simp
    ultimately show ?thesis by blast
  qed
qed

text \<open>
  C8. With a firmware update pending \<open>revertusb\<close> returns 0 at once, the state
  untouched. On an RGB device without one: if the transport is stuck at round \<open>k + 1\<close> of
  the first drain loop, \<open>revertusb\<close> returns \<open>- 1\<close> in the state that dequeue left, and
  its calls were the \<open>k + 1\<close> dequeues and nothing else, so no \<open>setactive\<close>; if the first
  loop drains the queue in \<open>k\<close> rounds and the transport is stuck at round \<open>j + 1\<close> of
  the second loop, \<open>revertusb\<close> returns \<open>- 1\<close> in the state that dequeue left, and its
  calls were \<open>k\<close> dequeues, \<open>setactive(kb, 0)\<close> and \<open>j + 1\<close> dequeues. In every run of
  \<open>revertusb\<close> that returns, no event follows a dequeue that yielded nothing, and the
  result is \<open>- 1\<close> exactly when the run ends in such a dequeue.
\<close>

theorem revertusb_stuck:
  "(NEEDS_FW_UPDATE c (dev s) \<longrightarrow> revertusb c env fuel s = Some (0, s)) \<and>
   (\<not> NEEDS_FW_UPDATE c (dev s) \<and> HAS_FEATURES (dev s) (FEAT_RGB c) \<and>
    stuck_after env Short k s = Some s' \<and> k < fuel \<longrightarrow>
      revertusb c env fuel s = Some (- 1, s') \<and>
      ext_calls (trace s') = ext_calls (trace s) @ replicate (Suc k) Usbdequeue) \<and>
   (\<not> NEEDS_FW_UPDATE c (dev s) \<and> HAS_FEATURES (dev s) (FEAT_RGB c) \<and>
    drained_after env Short k s = Some sd \<and> k \<le> fuel \<and>
    stuck_after env Medium j (deactivate env sd) = Some s' \<and> j < fuel \<longrightarrow>
      revertusb c env fuel s = Some (- 1, s') \<and>
      ext_calls (trace s') =
        ext_calls (trace s) @ replicate k Usbdequeue @ Setactive 0 # replicate (Suc j) Usbdequeue) \<and>
   (revertusb c env fuel (s\<lparr>trace := []\<rparr>) = Some (r, sr) \<longrightarrow>
      (\<forall>e\<in>set (butlast (trace sr)). \<not> failed_dequeue e) \<and>
      (r = - 1 \<longleftrightarrow> trace sr \<noteq> [] \<and> failed_dequeue (last (trace sr))))"
proof -
  have pending: "revertusb c env fuel s = Some (0, s)" if "NEEDS_FW_UPDATE c (dev s)"
    using that by (simp add: revertusb_def)
  have first: "revertusb c env fuel s = Some (- 1, s') \<and>
      ext_calls (trace s') = ext_calls (trace s) @ replicate (Suc k) Usbdequeue"
    if a: "\<not> NEEDS_FW_UPDATE c (dev s) \<and> HAS_FEATURES (dev s) (FEAT_RGB c) \<and>
           stuck_after env Short k s = Some s' \<and> k < fuel"
  proof -
    from a have "drain_queue env Short fuel s = Some (- 1, s')"
      using stuck_after_drain by blast
    with a have "revertusb c env fuel s = Some (- 1, s')" by (simp add: revertusb_def)
    moreover from a have "ext_calls (trace s') =
        ext_calls (trace s) @ replicate (Suc k) Usbdequeue"
      using stuck_after_calls by blast
    ultimately show ?thesis by blast
  qed
  have second: "revertusb c env fuel s = Some (- 1, s') \<and>
      ext_calls (trace s') =
        ext_calls (trace s) @ replicate k Usbdequeue @ Setactive 0 # replicate (Suc j) Usbdequeue"
    if a: "\<not> NEEDS_FW_UPDATE c (dev s) \<and> HAS_FEATURES (dev s) (FEAT_RGB c) \<and>
           drained_after env Short k s = Some sd \<and> k \<le> fuel \<and>
           stuck_after env Medium j (deactivate env sd) = Some s' \<and> j < fuel"
  proof -
    from a have "drain_queue env Short fuel s = Some (0, sd)"
      and "drain_queue env Medium fuel (deactivate env sd) = Some (- 1, s')"
      using drained_after_drain stuck_after_drain by blast+
    with a have run: "revertusb c env fuel s = Some (- 1, s')"
      by (simp add: revertusb_def deactivate_def Let_def)
    have "ext_calls (trace sd) = ext_calls (trace s) @ replicate k Usbdequeue"
      using a drained_after_calls by blast
    moreover have "ext_calls (trace (deactivate env sd)) = ext_calls (trace sd) @ [Setactive 0]"
      by (simp add: deactivate_def)
    moreover have "ext_calls (trace s') =
        ext_calls (trace (deactivate env sd)) @ replicate (Suc j) Usbdequeue"
      using a stuck_after_calls by blast
    ultimately show ?thesis using run by simp
  qed
  have last: "(\<forall>e\<in>set (butlast (trace sr)). \<not> failed_dequeue e) \<and>
      (r = - 1 \<longleftrightarrow> trace sr \<noteq> [] \<and> failed_dequeue (last (trace sr)))"
    if "revertusb c env fuel (s\<lparr>trace := []\<rparr>) = Some (r, sr)"
  proof -
    from revertusb_trace [OF that] obtain evs where
      "trace sr = evs" "\<forall>e\<in>set (butlast evs). \<not> failed_dequeue e" "r = 0 \<or> r = - 1"
      "r = - 1 \<longrightarrow> evs \<noteq> [] \<and> failed_dequeue (last evs)"
      "r = 0 \<longrightarrow> (\<forall>e\<in>set evs. \<not> failed_dequeue e)"
      by auto
    then show ?thesis by auto
  qed
  from pending first second last show ?thesis by blast
qed

theorem revertusb_stuck_witness:
  "map_option fst (revertusb ex_config (ex_env 0 res_ok) 0 (ex_sys (ex_kb_rgb\<lparr>fwversion := 0\<rparr>)))
     = Some 0 \<and>
   map_option fst (revertusb ex_config (ex_env 288 res_stuck) 2
                     (ex_sys (ex_kb_rgb\<lparr>queuecount := 3\<rparr>))) = Some (- 1) \<and>
   map_option (\<lambda>(r, s). ext_calls (trace s))
     (revertusb ex_config (ex_env 288 res_stuck) 2 (ex_sys (ex_kb_rgb\<lparr>queuecount := 3\<rparr>)))
     = Some [Usbdequeue, Usbdequeue] \<and>
   map_option fst (revertusb ex_config (ex_env_setactive 288 res_stuck_late) 2
                     (ex_sys (ex_kb_rgb\<lparr>queuecount := 1\<rparr>))) = Some (- 1) \<and>
   map_option (\<lambda>(r, s). ext_calls (trace s))
     (revertusb ex_config (ex_env_setactive 288 res_stuck_late) 2
        (ex_sys (ex_kb_rgb\<lparr>queuecount := 1\<rparr>)))
     = Some [Usbdequeue, Setactive 0, Usbdequeue]"
proof -
  let ?s3 = "ex_sys (ex_kb_rgb\<lparr>queuecount := 3\<rparr>)"
  let ?sd = "ex_sys (ex_kb_rgb\<lparr>queuecount := 1\<rparr>)"
  let ?s0 = "ex_sys (ex_kb_rgb\<lparr>fwversion := 0\<rparr>)"
  let ?e = "ex_env 288 res_stuck"
  let ?ea = "ex_env_setactive 288 res_stuck_late"
  have pre: "NEEDS_FW_UPDATE ex_config (dev ?s0)"
    "\<not> NEEDS_FW_UPDATE ex_config (dev ?s3)" "HAS_FEATURES (dev ?s3) (FEAT_RGB ex_config)"
    "\<not> NEEDS_FW_UPDATE ex_config (dev ?sd)" "HAS_FEATURES (dev ?sd) (FEAT_RGB ex_config)"
    "trace ?s3 = []" "trace ?sd = []"
    by (simp_all add: HAS_FEATURES_def ex_defs)
  have "stuck_after ?e Short 1 ?s3 \<noteq> None"
    by code_simp
  then obtain sa where sa: "stuck_after ?e Short 1 ?s3 = Some sa" by blast
  have "drained_after ?ea Short 1 ?sd \<noteq> None"
    by code_simp
  then obtain sb where sb: "drained_after ?ea Short 1 ?sd = Some sb" by blast
  have "stuck_after ?ea Medium 0 (deactivate ?ea (the (drained_after ?ea Short 1 ?sd))) \<noteq> None"
    by code_simp
  then obtain sc where sc: "stuck_after ?ea Medium 0 (deactivate ?ea sb) = Some sc"
    unfolding sb option.sel by blast
  from revertusb_stuck [where c = ex_config and env = "ex_env 0 res_ok" and fuel = 0 and s = ?s0]
    pre(1)
  have a: "revertusb ex_config (ex_env 0 res_ok) 0 ?s0 = Some (0, ?s0)" by blast
  from revertusb_stuck [where c = ex_config and env = ?e and fuel = 2 and s = ?s3 and k = 1
      and s' = sa] pre sa
  have b: "revertusb ex_config ?e 2 ?s3 = Some (- 1, sa)"
    "ext_calls (trace sa) = [Usbdequeue, Usbdequeue]"
    by (simp_all add: numeral_2_eq_2)
  from revertusb_stuck [where c = ex_config and env = ?ea and fuel = 2 and s = ?sd and k = 1
      and j = 0 and sd = sb and s' = sc] pre sb sc
  have c: "revertusb ex_config ?ea 2 ?sd = Some (- 1, sc)"
    "ext_calls (trace sc) = [Usbdequeue, Setactive 0, Usbdequeue]"
    by (simp_all add: numeral_2_eq_2)
  from a b c show ?thesis by simp
qed

end
